theory Spec2Isabelle
  imports Main "HOL-Library.AList"
begin

section \<open>Python values, messages and exceptions\<close>

text \<open>
  The library works on already decoded Python values. A dictionary is an association
  list in iteration order; its keys are the hashable values that occur as keys of
  decoded data and of error trees: integers (list indices) and strings (field names).
  \<open>MISSING\<close> is the module's sentinel object, \<open>PNone\<close> is Python's \<open>None\<close>.
  \<open>PObject\<close> is an instance with the given attributes; an attribute that is a bound
  method without arguments is a \<open>PCallable\<close>, which carries what calling it gives.
\<close>

datatype key = KInt int | KStr string

datatype msgs =
    Msg string
  | MsgList "msgs list"
  | MsgMap "(key \<times> msgs) list"

text \<open>
  The exceptions that the module raises or lets through. Only a \<open>ValidationError\<close>
  carries data that the code reads (\<open>ve.messages\<close>); of the others only the class
  matters here.
\<close>

datatype exn =
    ValidationError msgs
  | ValueError
  | AttributeError
  | NameError
  | KeyError
  | TypeError

datatype pyval =
    MISSING
  | PNone
  | PBool bool
  | PInt int
  | PStr string
  | PList "pyval list"
  | PDict "(key \<times> pyval) list"
  | PObject "(string \<times> pyval) list"
  | PCallable "exn + pyval"

subsection \<open>Collaborators that are imported from other modules\<close>

text \<open>
  Modelled from the spec: \<open>zephyr.utils.is_list\<close> and \<open>zephyr.utils.is_dict\<close> are not
  among the sources. The spec calls them a primitive-kind classifier that tells
  "is this a list-like sequence" and "is this a mapping" from other values.
\<close>

fun is_list :: "pyval \<Rightarrow> bool" where
  "is_list (PList xs) = True"
| "is_list v = False"

fun is_dict :: "pyval \<Rightarrow> bool" where
  "is_dict (PDict kvs) = True"
| "is_dict v = False"

text \<open>
  Modelled from the spec: \<open>zephyr.compat.int_types\<close> and \<open>zephyr.compat.string_types\<close>
  are not among the sources. The spec calls them the host's integer and string
  type-membership test and notes that booleans are a subtype of integer in the host
  representation: Python's \<open>isinstance(True, int)\<close> holds. \<open>isinstance_bool\<close> is
  \<open>isinstance(v, bool)\<close>, which holds of the two booleans only.
\<close>

fun isinstance_int_types :: "pyval \<Rightarrow> bool" where
  "isinstance_int_types (PInt i) = True"
| "isinstance_int_types (PBool b) = True"
| "isinstance_int_types v = False"

fun isinstance_string_types :: "pyval \<Rightarrow> bool" where
  "isinstance_string_types (PStr s) = True"
| "isinstance_string_types v = False"

fun isinstance_bool :: "pyval \<Rightarrow> bool" where
  "isinstance_bool (PBool b) = True"
| "isinstance_bool v = False"

text \<open>
  Modelled from the spec: \<open>zephyr.errors\<close> (\<open>ValidationError\<close>,
  \<open>ValidationErrorBuilder\<close>, \<open>merge_errors\<close>) is not among the sources. The spec's
  ErrorAggregator collects (key, message-or-submessages) pairs, merges a whole nested
  error structure under a single key, and at the end of a traversal raises one
  structured failure if any errors were recorded and does nothing otherwise.
  The builder's state is \<open>None\<close> while nothing was recorded. Two mappings merge key by
  key, a new key after the recorded ones; messages that meet under one key, or that
  are not mappings, are kept side by side in a list.
\<close>

fun as_list :: "msgs \<Rightarrow> msgs list" where
  "as_list (MsgList ms) = ms"
| "as_list m = [m]"

fun merge_entry :: "key \<times> msgs \<Rightarrow> (key \<times> msgs) list \<Rightarrow> (key \<times> msgs) list" where
  "merge_entry (k, m) acc =
     (case map_of acc k of
        None \<Rightarrow> acc @ [(k, m)]
      | Some m0 \<Rightarrow> AList.update k (MsgList (as_list m0 @ as_list m)) acc)"

fun merge_errors :: "msgs \<Rightarrow> msgs \<Rightarrow> msgs" where
  "merge_errors (MsgMap a) (MsgMap b) = MsgMap (fold merge_entry b a)"
| "merge_errors e1 e2 = MsgList (as_list e1 @ as_list e2)"

type_synonym ValidationErrorBuilder = "msgs option"

definition add_errors :: "ValidationErrorBuilder \<Rightarrow> msgs \<Rightarrow> ValidationErrorBuilder" where
  "add_errors eb errors =
     (case eb of None \<Rightarrow> Some errors | Some e \<Rightarrow> Some (merge_errors e errors))"

definition add_error :: "ValidationErrorBuilder \<Rightarrow> key \<Rightarrow> msgs \<Rightarrow> ValidationErrorBuilder" where
  "add_error eb path error = add_errors eb (MsgMap [(path, error)])"

definition raise_errors :: "ValidationErrorBuilder \<Rightarrow> exn + unit" where
  "raise_errors eb = (case eb of None \<Rightarrow> Inr () | Some e \<Rightarrow> Inl (ValidationError e))"

subsection \<open>Python built-ins that the module calls\<close>

text \<open>
  A message template is a Python string that \<open>_fail\<close> hands to \<open>str.format\<close>. It is
  kept here as the sequence of its parts: literal text, and replacement fields
  \<open>{expected}\<close> and \<open>{expected_length}\<close>, the two keyword arguments that the module
  passes to \<open>_fail\<close>. \<open>template_str\<close> spells the string that a template is: the text
  with its braces doubled, as \<open>str.format\<close> reads them, and the fields in braces.
  On such a string \<open>str.format\<close> gives the text and the values of the fields in
  order, and raises \<open>KeyError\<close> at a field whose keyword argument was not passed.
  Strings with other replacement fields (positional, other names, conversions,
  format specifications) are not templates of this type.
\<close>

datatype kwarg = Expected | Expected_length

datatype segment = Text string | Repl kwarg

fun kwarg_name :: "kwarg \<Rightarrow> string" where
  "kwarg_name Expected = ''expected''"
| "kwarg_name Expected_length = ''expected_length''"

fun text_str :: "string \<Rightarrow> string" where
  "text_str [] = []"
| "text_str (c # cs) =
     (if c = CHR ''{'' \<or> c = CHR ''}'' then c # c # text_str cs else c # text_str cs)"

fun template_str :: "segment list \<Rightarrow> string" where
  "template_str [] = []"
| "template_str (Text s # rest) = text_str s @ template_str rest"
| "template_str (Repl name # rest) = ''{'' @ kwarg_name name @ ''}'' @ template_str rest"

fun format_template :: "segment list \<Rightarrow> (kwarg \<times> string) list \<Rightarrow> exn + string" where
  "format_template [] kwargs = Inr []"
| "format_template (Text s # rest) kwargs =
     (case format_template rest kwargs of
        Inl e \<Rightarrow> Inl e
      | Inr out \<Rightarrow> Inr (s @ out))"
| "format_template (Repl name # rest) kwargs =
     (case map_of kwargs name of
        None \<Rightarrow> Inl KeyError
      | Some s \<Rightarrow>
          (case format_template rest kwargs of
             Inl e \<Rightarrow> Inl e
           | Inr out \<Rightarrow> Inr (s @ out)))"

text \<open>
  A value of \<open>error_messages\<close>: a string, which is a template, or a value that is no
  string (a list or a mapping of messages), which \<open>_fail\<close> raises as it is.
  \<open>message_of\<close> is the value as the messages of a \<open>ValidationError\<close> when it is not
  formatted.
\<close>

datatype error_message =
    Template "segment list"
  | ListMessage "msgs list"
  | MapMessage "(key \<times> msgs) list"

fun message_of :: "error_message \<Rightarrow> msgs" where
  "message_of (Template t) = Msg (template_str t)"
| "message_of (ListMessage ms) = MsgList ms"
| "message_of (MapMessage m) = MsgMap m"

text \<open>\<open>str(n)\<close> of a length: its decimal digits.\<close>

fun str_of_nat :: "nat \<Rightarrow> string" where
  "str_of_nat n =
     (if n < 10 then [char_of (48 + n)]
      else str_of_nat (n div 10) @ [char_of (48 + n mod 10)])"

declare str_of_nat.simps [simp del]

text \<open>
  The attribute of a list object that the module looks up before it calls it:
  \<open>append\<close> is the list method; a list has no attribute \<open>add\<close>.
\<close>

definition list_getattr :: "string \<Rightarrow> exn + (pyval list \<Rightarrow> pyval \<Rightarrow> pyval list)" where
  "list_getattr name =
     (if name = ''append'' then Inr (\<lambda>xs x. xs @ [x]) else Inl AttributeError)"

text \<open>
  Reading a name that is bound neither in the function nor in the module
  (\<open>data\<close> in \<open>Tuple.dump\<close>, \<open>k\<close> in \<open>Object.dump\<close>) is a \<open>NameError\<close>.
\<close>

definition unbound_name :: "string \<Rightarrow> exn + 'a" where
  "unbound_name name = Inl NameError"

text \<open>
  \<open>getattr\<close> on an instance; the built-in attributes of the primitive values are not
  modelled, so only a \<open>PObject\<close> has attributes.
\<close>

fun getattr :: "pyval \<Rightarrow> string \<Rightarrow> pyval option" where
  "getattr (PObject attrs) name = map_of attrs name"
| "getattr v name = None"

text \<open>\<open>dict(a, **b)\<close>: the entries of \<open>a\<close>, those of \<open>b\<close> replacing or following them.\<close>

definition dict_merge :: "('k \<times> 'v) list \<Rightarrow> ('k \<times> 'v) list \<Rightarrow> ('k \<times> 'v) list" where
  "dict_merge a b = fold (\<lambda>(k, v) acc. AList.update k v acc) b a"

text \<open>\<open>dict(**kwargs)\<close>, the default constructor of \<open>Object\<close>.\<close>

definition dict_constructor :: "(string \<times> pyval) list \<Rightarrow> exn + pyval" where
  "dict_constructor kwargs = Inr (PDict (map (\<lambda>(name, v). (KStr name, v)) kwargs))"

section \<open>The type descriptors\<close>

text \<open>
  A validator is a callable that is given the data: it returns (\<open>None\<close>) or raises.
  \<open>Type_attrs\<close> holds the two attributes that \<open>Type.__init__\<close> sets on every
  descriptor. The \<open>validate\<close> argument of the constructor is \<open>None\<close>, a callable or a
  list of callables; \<open>validators_of\<close> is the list that the constructor makes of it.
\<close>

type_synonym validator = "pyval \<Rightarrow> exn option"

datatype Type_attrs =
  Type_attrs (validators: "validator list")
    (error_messages: "(string \<times> error_message) list")

datatype validate_arg = VNone | VCallable validator | VList "validator list"

definition Type_default_error_messages :: "(string \<times> error_message) list" where
  "Type_default_error_messages =
     [(''invalid_type'', Template [Text ''Value should be '', Repl Expected]),
      (''required'', Template [Text ''Value is required''])]"

fun validators_of :: "validate_arg \<Rightarrow> validator list" where
  "validators_of VNone = []"
| "validators_of (VCallable f) = [f]"
| "validators_of (VList fs) = fs"

definition Type_init ::
  "(string \<times> error_message) list \<Rightarrow> validate_arg \<Rightarrow> (string \<times> error_message) list option \<Rightarrow> Type_attrs" where
  "Type_init default_error_messages validate error_messages_arg =
     Type_attrs (validators_of validate)
       (dict_merge default_error_messages
          (case error_messages_arg of None \<Rightarrow> [] | Some em \<Rightarrow> em))"

text \<open>
  \<open>DictWithDefault\<close>, by value: the entries of \<open>self.values\<close> and \<open>self.default\<close>.
  A plain dictionary passed as \<open>value_type\<close> answers \<open>get\<close> like one with no default.
\<close>

datatype 'v DictWithDefault =
  DictWithDefault (values_of: "(key \<times> 'v) list") (default_of: "'v option")

definition DictWithDefault_getitem :: "'v DictWithDefault \<Rightarrow> key \<Rightarrow> 'v option" where
  "DictWithDefault_getitem self k =
     (case map_of (values_of self) k of Some v \<Rightarrow> Some v | None \<Rightarrow> default_of self)"

definition DictWithDefault_get :: "'v DictWithDefault \<Rightarrow> key \<Rightarrow> 'v option" where
  "DictWithDefault_get self k = DictWithDefault_getitem self k"

text \<open>
  The descriptors and the fields of an \<open>Object\<close>. \<open>Field\<close> is the base class, whose
  \<open>_get_value\<close> is not implemented. A constructor is called with the loaded fields as
  keyword arguments; a \<open>FunctionField\<close> holds a function of the name and the object.
\<close>

datatype ptype =
    Any Type_attrs
  | Integer Type_attrs
  | String Type_attrs
  | Boolean Type_attrs
  | List Type_attrs ptype
  | Tuple Type_attrs "ptype list"
  | Dict Type_attrs "ptype DictWithDefault"
  | Object Type_attrs "(string \<times> pfield) list" "(string \<times> pyval) list \<Rightarrow> exn + pyval" bool
and pfield =
    Field (field_type: ptype)
  | ConstantField (field_type: ptype) pyval
  | AttributeField (field_type: ptype) "string option"
  | MethodField (field_type: ptype) "string option"
  | FunctionField (field_type: ptype) "string \<Rightarrow> pyval \<Rightarrow> exn + pyval"

subsection \<open>Reading the data\<close>

text \<open>
  What iterating a list gives. The code iterates only after \<open>is_list\<close> has held.
\<close>

fun list_items :: "pyval \<Rightarrow> pyval list" where
  "list_items (PList xs) = xs"
| "list_items v = []"

text \<open>
  Modelled from the spec: \<open>zephyr.compat.iteritems\<close> is not among the sources; it is
  the iteration over the (key, value) pairs of a mapping. The code calls it only
  after \<open>is_dict\<close> has held. \<open>dict_get\<close> is \<open>data.get(name, default)\<close> of a dictionary.
\<close>

fun iteritems :: "pyval \<Rightarrow> (key \<times> pyval) list" where
  "iteritems (PDict kvs) = kvs"
| "iteritems v = []"

definition dict_get :: "pyval \<Rightarrow> key \<Rightarrow> pyval \<Rightarrow> pyval" where
  "dict_get data k d = (case map_of (iteritems data) k of None \<Rightarrow> d | Some v \<Rightarrow> v)"

section \<open>The base class \<open>Type\<close>\<close>

text \<open>
  \<open>Type._fail\<close>: the template registered for the key, formatted when it is a string,
  raised as a \<open>ValidationError\<close>; a key without template is a \<open>ValueError\<close>.
\<close>

definition Type_fail :: "Type_attrs \<Rightarrow> string \<Rightarrow> (kwarg \<times> string) list \<Rightarrow> exn + 'a" where
  "Type_fail self k kwargs =
     (case map_of (error_messages self) k of
        None \<Rightarrow> Inl ValueError
      | Some msg \<Rightarrow>
          (case msg of
             Template template \<Rightarrow>
               (case format_template template kwargs of
                  Inl e \<Rightarrow> Inl e
                | Inr text \<Rightarrow> Inl (ValidationError (Msg text)))
           | _ \<Rightarrow> Inl (ValidationError (message_of msg))))"

text \<open>
  \<open>Type.load\<close>: every validator is called; a \<open>ValidationError\<close> is recorded and the
  loop goes on, any other exception leaves the loop.
\<close>

fun run_validators ::
  "validator list \<Rightarrow> pyval \<Rightarrow> ValidationErrorBuilder \<Rightarrow> exn + ValidationErrorBuilder" where
  "run_validators [] data eb = Inr eb"
| "run_validators (validator # rest) data eb =
     (case validator data of
        None \<Rightarrow> run_validators rest data eb
      | Some e \<Rightarrow>
          (case e of
             ValidationError m \<Rightarrow> run_validators rest data (add_errors eb m)
           | _ \<Rightarrow> Inl e))"

definition Type_load :: "Type_attrs \<Rightarrow> pyval \<Rightarrow> exn + pyval" where
  "Type_load self data =
     (case run_validators (validators self) data None of
        Inl e \<Rightarrow> Inl e
      | Inr eb \<Rightarrow> (case raise_errors eb of Inl e \<Rightarrow> Inl e | Inr u \<Rightarrow> Inr data))"

definition Type_dump :: "Type_attrs \<Rightarrow> pyval \<Rightarrow> exn + pyval" where
  "Type_dump self v = Inr v"

section \<open>The loops of the composite types\<close>

text \<open>
  Each loop is given what it calls on an element (\<open>load\<close> or \<open>dump\<close> of the child
  type) and carries the error builder and the result built so far. An exception
  that is not a \<open>ValidationError\<close> leaves the loop at once.
\<close>

text \<open>\<open>List.load\<close> and \<open>List.dump\<close>: \<open>items.append(self.item_type.load(item))\<close>.\<close>

fun List_loop ::
  "(pyval \<Rightarrow> exn + pyval) \<Rightarrow> nat \<Rightarrow> pyval list \<Rightarrow> ValidationErrorBuilder \<Rightarrow> pyval list
     \<Rightarrow> exn + (ValidationErrorBuilder \<times> pyval list)" where
  "List_loop conv idx [] eb items = Inr (eb, items)"
| "List_loop conv idx (item # rest) eb items =
     (case list_getattr ''append'' of
        Inl e \<Rightarrow> Inl e
      | Inr items_append \<Rightarrow>
          (case conv item of
             Inr x \<Rightarrow> List_loop conv (Suc idx) rest eb (items_append items x)
           | Inl e \<Rightarrow>
               (case e of
                  ValidationError m \<Rightarrow>
                    List_loop conv (Suc idx) rest
                      (add_errors eb (MsgMap [(KInt (int idx), m)])) items
                | _ \<Rightarrow> Inl e)))"

text \<open>
  \<open>Tuple.load\<close> and \<open>Tuple.dump\<close>: \<open>result.add(item_type.load(item))\<close> over
  \<open>zip(self.item_types, data)\<close>. Python evaluates \<open>result.add\<close> before the argument.
\<close>

fun Tuple_loop ::
  "nat \<Rightarrow> ((pyval \<Rightarrow> exn + pyval) \<times> pyval) list \<Rightarrow> ValidationErrorBuilder \<Rightarrow> pyval list
     \<Rightarrow> exn + (ValidationErrorBuilder \<times> pyval list)" where
  "Tuple_loop idx [] eb result = Inr (eb, result)"
| "Tuple_loop idx ((conv, item) # rest) eb result =
     (case list_getattr ''add'' of
        Inl e \<Rightarrow> Inl e
      | Inr result_add \<Rightarrow>
          (case conv item of
             Inr x \<Rightarrow> Tuple_loop (Suc idx) rest eb (result_add result x)
           | Inl e \<Rightarrow>
               (case e of
                  ValidationError m \<Rightarrow>
                    Tuple_loop (Suc idx) rest
                      (add_errors eb (MsgMap [(KInt (int idx), m)])) result
                | _ \<Rightarrow> Inl e)))"

text \<open>
  \<open>Dict.load\<close> and \<open>Dict.dump\<close>: the loop runs over the entries of the data;
  \<open>value_types\<close> answers \<open>self.value_types.get(k)\<close> with what to call on the value.
\<close>

fun Dict_loop ::
  "(key \<Rightarrow> (pyval \<Rightarrow> exn + pyval) option) \<Rightarrow> (key \<times> pyval) list \<Rightarrow> ValidationErrorBuilder
     \<Rightarrow> (key \<times> pyval) list \<Rightarrow> exn + (ValidationErrorBuilder \<times> (key \<times> pyval) list)" where
  "Dict_loop value_types [] eb result = Inr (eb, result)"
| "Dict_loop value_types ((k, v) # rest) eb result =
     (case value_types k of
        None \<Rightarrow> Dict_loop value_types rest eb result
      | Some conv \<Rightarrow>
          (case conv v of
             Inr x \<Rightarrow> Dict_loop value_types rest eb (AList.update k x result)
           | Inl e \<Rightarrow>
               (case e of
                  ValidationError m \<Rightarrow> Dict_loop value_types rest (add_error eb k m) result
                | _ \<Rightarrow> Inl e)))"

text \<open>
  \<open>Object.load\<close>: the loop over \<open>self.fields\<close>, each field given with its \<open>load\<close>;
  then the loop over the keys of the data when extra fields are not allowed.
\<close>

fun Object_load_loop ::
  "(string \<times> (string \<Rightarrow> pyval \<Rightarrow> exn + pyval)) list \<Rightarrow> pyval \<Rightarrow> ValidationErrorBuilder
     \<Rightarrow> (string \<times> pyval) list \<Rightarrow> exn + (ValidationErrorBuilder \<times> (string \<times> pyval) list)" where
  "Object_load_loop [] data eb result = Inr (eb, result)"
| "Object_load_loop ((name, field_load) # rest) data eb result =
     (case field_load name data of
        Inr loaded \<Rightarrow>
          Object_load_loop rest data eb
            (if loaded \<noteq> MISSING then AList.update name loaded result else result)
      | Inl e \<Rightarrow>
          (case e of
             ValidationError m \<Rightarrow> Object_load_loop rest data (add_error eb (KStr name) m) result
           | _ \<Rightarrow> Inl e))"

fun Object_unknown_loop ::
  "key list \<Rightarrow> string list \<Rightarrow> Type_attrs \<Rightarrow> ValidationErrorBuilder
     \<Rightarrow> exn + ValidationErrorBuilder" where
  "Object_unknown_loop [] names self eb = Inr eb"
| "Object_unknown_loop (name # rest) names self eb =
     (if name \<notin> set (map KStr names) then
        (case map_of (error_messages self) ''unknown'' of
           None \<Rightarrow> Inl KeyError
         | Some msg \<Rightarrow>
             Object_unknown_loop rest names self (add_error eb name (message_of msg)))
      else Object_unknown_loop rest names self eb)"

text \<open>
  \<open>Object.dump\<close>: the handler of the loop records the failure under \<open>k\<close>, a name
  that is not bound there.
\<close>

fun Object_dump_loop ::
  "(string \<times> (string \<Rightarrow> pyval \<Rightarrow> exn + pyval)) list \<Rightarrow> pyval \<Rightarrow> ValidationErrorBuilder
     \<Rightarrow> (string \<times> pyval) list \<Rightarrow> exn + (ValidationErrorBuilder \<times> (string \<times> pyval) list)" where
  "Object_dump_loop [] obj eb result = Inr (eb, result)"
| "Object_dump_loop ((name, field_dump) # rest) obj eb result =
     (case field_dump name obj of
        Inr dumped \<Rightarrow>
          Object_dump_loop rest obj eb
            (if dumped \<noteq> MISSING then AList.update name dumped result else result)
      | Inl e \<Rightarrow>
          (case e of
             ValidationError m \<Rightarrow>
               (case unbound_name ''k'' of
                  Inl e' \<Rightarrow> Inl e'
                | Inr k \<Rightarrow> Object_dump_loop rest obj (add_error eb k m) result)
           | _ \<Rightarrow> Inl e))"

section \<open>\<open>load\<close>\<close>

function (sequential) load :: "ptype \<Rightarrow> pyval \<Rightarrow> exn + pyval"
and Field_load :: "pfield \<Rightarrow> string \<Rightarrow> pyval \<Rightarrow> exn + pyval" where
  "load (Any self) data = Type_load self data"
| "load (Integer self) data =
     (if data = MISSING \<or> data = PNone then Type_fail self ''required'' []
      else if \<not> isinstance_int_types data then
        Type_fail self ''invalid_type'' [(Expected, ''integer'')]
      else Type_load self data)"
| "load (String self) data =
     (if data = MISSING \<or> data = PNone then Type_fail self ''required'' []
      else if \<not> isinstance_string_types data then
        Type_fail self ''invalid_type'' [(Expected, ''string'')]
      else Type_load self data)"
| "load (Boolean self) data =
     (if data = MISSING \<or> data = PNone then Type_fail self ''required'' []
      else if \<not> isinstance_bool data then
        Type_fail self ''invalid_type'' [(Expected, ''boolean'')]
      else Type_load self data)"
| "load (List self item_type) data =
     (if data = MISSING \<or> data = PNone then Type_fail self ''required'' []
      else if \<not> is_list data then
        Type_fail self ''invalid_type'' [(Expected, ''list'')]
      else
        (case List_loop (\<lambda>item. load item_type item) 0 (list_items data) None [] of
           Inl e \<Rightarrow> Inl e
         | Inr (eb, items) \<Rightarrow>
             (case raise_errors eb of
                Inl e \<Rightarrow> Inl e
              | Inr u \<Rightarrow> Type_load self (PList items))))"
| "load (Tuple self item_types) data =
     (if data = MISSING \<or> data = PNone then Type_fail self ''required'' []
      else if \<not> is_list data then
        Type_fail self ''invalid_type'' [(Expected, ''list'')]
      else if length (list_items data) \<noteq> length item_types then
        Type_fail self ''invalid_length''
          [(Expected_length, str_of_nat (length item_types))]
      else
        (case Tuple_loop 0
                (zip (map (\<lambda>item_type. (\<lambda>item. load item_type item)) item_types)
                   (list_items data))
                None [] of
           Inl e \<Rightarrow> Inl e
         | Inr (eb, result) \<Rightarrow>
             (case raise_errors eb of
                Inl e \<Rightarrow> Inl e
              | Inr u \<Rightarrow> Type_load self (PList result))))"
| "load (Dict self value_types) data =
     (if data = MISSING \<or> data = PNone then Type_fail self ''required'' []
      else if \<not> is_dict data then
        Type_fail self ''invalid_type'' [(Expected, ''dict'')]
      else
        (case Dict_loop
                (DictWithDefault_get
                   (map_DictWithDefault (\<lambda>value_type. (\<lambda>v. load value_type v)) value_types))
                (iteritems data) None [] of
           Inl e \<Rightarrow> Inl e
         | Inr (eb, result) \<Rightarrow>
             (case raise_errors eb of
                Inl e \<Rightarrow> Inl e
              | Inr u \<Rightarrow> Type_load self (PDict result))))"
| "load (Object self fields constructor allow_extra_fields) data =
     (if data = MISSING \<or> data = PNone then Type_fail self ''required'' []
      else if \<not> is_dict data then
        Type_fail self ''invalid_type'' [(Expected, ''dict'')]
      else
        (case Object_load_loop
                (map (\<lambda>(name, field). (name, (\<lambda>n d. Field_load field n d))) fields)
                data None [] of
           Inl e \<Rightarrow> Inl e
         | Inr (eb, result) \<Rightarrow>
             (case (if \<not> allow_extra_fields then
                      Object_unknown_loop (map fst (iteritems data)) (map fst fields) self eb
                    else Inr eb) of
                Inl e \<Rightarrow> Inl e
              | Inr eb' \<Rightarrow>
                  (case raise_errors eb' of
                     Inl e \<Rightarrow> Inl e
                   | Inr u \<Rightarrow>
                       (case Type_load self (PDict (map (\<lambda>(n, v). (KStr n, v)) result)) of
                          Inl e \<Rightarrow> Inl e
                        | Inr kwargs \<Rightarrow> constructor result)))))"
| "Field_load (Field t) name data = Inr MISSING"
| "Field_load (ConstantField t v) name data = Inr MISSING"
| "Field_load (AttributeField t attribute) name data =
     load t (dict_get data (KStr name) MISSING)"
| "Field_load (MethodField t method) name data = Inr MISSING"
| "Field_load (FunctionField t function) name data = Inr MISSING"
  by pat_completeness auto

termination
proof (relation "measure (case_sum (\<lambda>p. size (fst p)) (\<lambda>p. size (fst p)))", goal_cases)
  case 1
  show ?case by simp
next
  case (2 self item_type data x)
  show ?case by simp
next
  case (3 self item_types data x xa)
  then have "size x \<le> size_list size item_types"
    by (simp add: size_list_estimation')
  then show ?case by simp
next
  case (4 self value_types data z x)
  obtain vs dflt where vt: "value_types = DictWithDefault vs dflt"
    by (cases value_types)
  with 4 consider (entry) k where "(k, z) \<in> set vs" | (dflt) "dflt = Some z"
    by (auto simp: snds.simps)
  then have "size z \<le> size_DictWithDefault size value_types"
  proof cases
    case entry
    have "size z \<le> size_prod (\<lambda>_. 0) size (k, z)" by simp
    with entry have "size z \<le> size_list (size_prod (\<lambda>_. 0) size) vs"
      by (rule size_list_estimation')
    then show ?thesis using vt by simp
  next
    case dflt
    then show ?thesis using vt by simp
  qed
  then show ?case by simp
next
  case (5 self fields constructor allow_extra_fields data x xa y xb xc)
  then have "(xa, y) \<in> set fields" by auto
  moreover have "size y \<le> size_prod (\<lambda>x. 0) size (xa, y)" by simp
  ultimately have "size y \<le> size_list (size_prod (\<lambda>x. 0) size) fields"
    by (rule size_list_estimation')
  then show ?case by simp
next
  case (6 t attribute name data)
  show ?case by simp
qed

text \<open>\<open>Type.validate\<close>: the messages of a \<open>ValidationError\<close>, or the empty mapping.\<close>

definition validate :: "ptype \<Rightarrow> pyval \<Rightarrow> exn + msgs" where
  "validate self data =
     (case load self data of
        Inr v \<Rightarrow> Inr (MsgMap [])
      | Inl e \<Rightarrow> (case e of ValidationError messages \<Rightarrow> Inr messages | _ \<Rightarrow> Inl e))"

section \<open>\<open>dump\<close>\<close>

text \<open>
  \<open>str(value)\<close> and \<open>bool(value)\<close>, which the code calls on a value that has passed
  the \<open>isinstance\<close> test: they give the value itself.
\<close>

fun py_str :: "pyval \<Rightarrow> pyval" where
  "py_str (PStr s) = PStr s"

fun py_bool :: "pyval \<Rightarrow> pyval" where
  "py_bool (PBool b) = PBool b"

text \<open>
  \<open>self.attribute or name\<close> and \<open>if self.method: name = self.method\<close>: \<open>None\<close> and
  the empty string are false.
\<close>

fun name_or :: "string option \<Rightarrow> string \<Rightarrow> string" where
  "name_or None name = name"
| "name_or (Some a) name = (if a = [] then name else a)"

text \<open>
  \<open>_get_value\<close> of the field classes. The base class raises \<open>NotImplemented()\<close>:
  calling \<open>NotImplemented\<close> is a \<open>TypeError\<close>.
\<close>

fun Field_get_value :: "pfield \<Rightarrow> string \<Rightarrow> pyval \<Rightarrow> exn + pyval" where
  "Field_get_value (Field t) name obj = Inl TypeError"
| "Field_get_value (ConstantField t v) name obj = Inr v"
| "Field_get_value (AttributeField t attribute) name obj =
     (case getattr obj (name_or attribute name) of None \<Rightarrow> Inr MISSING | Some v \<Rightarrow> Inr v)"
| "Field_get_value (MethodField t method) name obj =
     (case getattr obj (name_or method name) of
        None \<Rightarrow> Inl ValueError
      | Some f \<Rightarrow> (case f of PCallable r \<Rightarrow> r | _ \<Rightarrow> Inl ValueError))"
| "Field_get_value (FunctionField t function) name obj = function name obj"

function (sequential) dump :: "ptype \<Rightarrow> pyval \<Rightarrow> exn + pyval"
and Field_dump :: "pfield \<Rightarrow> string \<Rightarrow> pyval \<Rightarrow> exn + pyval" where
  "dump (Any self) v = Type_dump self v"
| "dump (Integer self) v =
     (if v = MISSING \<or> v = PNone then Type_fail self ''required'' []
      else if \<not> isinstance_int_types v then
        Type_fail self ''invalid_type'' [(Expected, ''integer'')]
      else Type_dump self v)"
| "dump (String self) v =
     (if v = MISSING \<or> v = PNone then Type_fail self ''required'' []
      else if \<not> isinstance_string_types v then
        Type_fail self ''invalid_type'' [(Expected, ''string'')]
      else Type_dump self (py_str v))"
| "dump (Boolean self) v =
     (if v = MISSING \<or> v = PNone then Type_fail self ''required'' []
      else if \<not> isinstance_bool v then
        Type_fail self ''invalid_type'' [(Expected, ''boolean'')]
      else Type_dump self (py_bool v))"
| "dump (List self item_type) v =
     (if v = MISSING \<or> v = PNone then Type_fail self ''required'' []
      else if \<not> is_list v then
        Type_fail self ''invalid_type'' [(Expected, ''list'')]
      else
        (case List_loop (\<lambda>item. dump item_type item) 0 (list_items v) None [] of
           Inl e \<Rightarrow> Inl e
         | Inr (eb, items) \<Rightarrow>
             (case raise_errors eb of
                Inl e \<Rightarrow> Inl e
              | Inr u \<Rightarrow> Type_dump self (PList items))))"
| "dump (Tuple self item_types) v =
     (if v = MISSING \<or> v = PNone then Type_fail self ''required'' []
      else
        (case unbound_name ''data'' of
           Inl e \<Rightarrow> Inl e
         | Inr data \<Rightarrow>
             (if \<not> is_list data then
                Type_fail self ''invalid_type'' [(Expected, ''list'')]
              else if length (list_items v) \<noteq> length item_types then
                Type_fail self ''invalid_length''
                  [(Expected_length, str_of_nat (length item_types))]
              else
                (case Tuple_loop 0
                        (zip (map (\<lambda>item_type. (\<lambda>item. dump item_type item)) item_types)
                           (list_items v))
                        None [] of
                   Inl e \<Rightarrow> Inl e
                 | Inr (eb, result) \<Rightarrow>
                     (case raise_errors eb of
                        Inl e \<Rightarrow> Inl e
                      | Inr u \<Rightarrow> Type_dump self (PList result))))))"
| "dump (Dict self value_types) v =
     (if v = MISSING \<or> v = PNone then Type_fail self ''required'' []
      else if \<not> is_dict v then
        Type_fail self ''invalid_type'' [(Expected, ''dict'')]
      else
        (case Dict_loop
                (DictWithDefault_get
                   (map_DictWithDefault (\<lambda>value_type. (\<lambda>x. dump value_type x)) value_types))
                (iteritems v) None [] of
           Inl e \<Rightarrow> Inl e
         | Inr (eb, result) \<Rightarrow>
             (case raise_errors eb of
                Inl e \<Rightarrow> Inl e
              | Inr u \<Rightarrow> Type_dump self (PDict result))))"
| "dump (Object self fields constructor allow_extra_fields) obj =
     (if obj = MISSING \<or> obj = PNone then Type_fail self ''required'' []
      else
        (case Object_dump_loop
                (map (\<lambda>(name, field). (name, (\<lambda>n ob. Field_dump field n ob))) fields)
                obj None [] of
           Inl e \<Rightarrow> Inl e
         | Inr (eb, result) \<Rightarrow>
             (case raise_errors eb of
                Inl e \<Rightarrow> Inl e
              | Inr u \<Rightarrow> Type_dump self (PDict (map (\<lambda>(n, x). (KStr n, x)) result)))))"
| "Field_dump field name obj =
     (case Field_get_value field name obj of
        Inl e \<Rightarrow> Inl e
      | Inr v \<Rightarrow> dump (field_type field) v)"
  by pat_completeness auto

termination
proof (relation "measure (case_sum (\<lambda>p. size (fst p)) (\<lambda>p. size (fst p)))", goal_cases)
  case 1
  show ?case by simp
next
  case (2 self item_type v x)
  show ?case by simp
next
  case (3 self item_types v data x xa)
  then have "size x \<le> size_list size item_types"
    by (simp add: size_list_estimation')
  then show ?case by simp
next
  case (4 self value_types v z x)
  obtain vs dflt where vt: "value_types = DictWithDefault vs dflt"
    by (cases value_types)
  with 4 consider (entry) k where "(k, z) \<in> set vs" | (dflt) "dflt = Some z"
    by (auto simp: snds.simps)
  then have "size z \<le> size_DictWithDefault size value_types"
  proof cases
    case entry
    have "size z \<le> size_prod (\<lambda>_. 0) size (k, z)" by simp
    with entry have "size z \<le> size_list (size_prod (\<lambda>_. 0) size) vs"
      by (rule size_list_estimation')
    then show ?thesis using vt by simp
  next
    case dflt
    then show ?thesis using vt by simp
  qed
  then show ?case by simp
next
  case (5 self fields constructor allow_extra_fields obj x xa y xb xc)
  then have "(xa, y) \<in> set fields" by auto
  moreover have "size y \<le> size_prod (\<lambda>x. 0) size (xa, y)" by simp
  ultimately have "size y \<le> size_list (size_prod (\<lambda>x. 0) size) fields"
    by (rule size_list_estimation')
  then show ?case by simp
next
  case (6 field name obj v)
  have "size (field_type field) < size field"
    by (cases field) simp_all
  then show ?case by simp
qed

section \<open>The constructors\<close>

text \<open>
  Each class merges its own default messages with the overrides it is given.
  \<open>Dict\<close> wraps a \<open>Type\<close> into a \<open>DictWithDefault\<close> that has this default and the
  entries of the dictionary of the default argument, which are none as long as no
  instance has changed that dictionary (the store is modelled in the next section);
  \<open>Object\<close> wraps a bare \<open>Type\<close> into \<open>default_field_type\<close>.
\<close>

definition Tuple_default_error_messages :: "(string \<times> error_message) list" where
  "Tuple_default_error_messages =
     dict_merge Type_default_error_messages
       [(''invalid_length'', Template [Text ''Value length should be '', Repl Expected_length])]"

definition Object_default_error_messages :: "(string \<times> error_message) list" where
  "Object_default_error_messages =
     dict_merge Type_default_error_messages [(''unknown'', Template [Text ''Unknown field''])]"

definition Any_init :: "validate_arg \<Rightarrow> (string \<times> error_message) list option \<Rightarrow> ptype" where
  "Any_init validate_a em = Any (Type_init Type_default_error_messages validate_a em)"

definition Integer_init :: "validate_arg \<Rightarrow> (string \<times> error_message) list option \<Rightarrow> ptype" where
  "Integer_init validate_a em = Integer (Type_init Type_default_error_messages validate_a em)"

definition String_init :: "validate_arg \<Rightarrow> (string \<times> error_message) list option \<Rightarrow> ptype" where
  "String_init validate_a em = String (Type_init Type_default_error_messages validate_a em)"

definition Boolean_init :: "validate_arg \<Rightarrow> (string \<times> error_message) list option \<Rightarrow> ptype" where
  "Boolean_init validate_a em = Boolean (Type_init Type_default_error_messages validate_a em)"


definition Tuple_init ::
  "ptype list \<Rightarrow> validate_arg \<Rightarrow> (string \<times> error_message) list option \<Rightarrow> ptype" where
  "Tuple_init item_types validate_a em =
     Tuple (Type_init Tuple_default_error_messages validate_a em) item_types"

definition Dict_init ::
  "ptype + ptype DictWithDefault \<Rightarrow> validate_arg \<Rightarrow> (string \<times> error_message) list option \<Rightarrow> ptype" where
  "Dict_init value_type validate_a em =
     Dict (Type_init Type_default_error_messages validate_a em)
       (case value_type of
          Inl t \<Rightarrow> DictWithDefault [] (Some t)
        | Inr value_types \<Rightarrow> value_types)"

definition Object_init ::
  "(string \<times> (pfield + ptype)) list \<Rightarrow> ((string \<times> pyval) list \<Rightarrow> exn + pyval)
     \<Rightarrow> (ptype \<Rightarrow> pfield) \<Rightarrow> bool \<Rightarrow> validate_arg \<Rightarrow> (string \<times> error_message) list option \<Rightarrow> ptype" where
  "Object_init fields constructor default_field_type allow_extra_fields validate_a em =
     Object (Type_init Object_default_error_messages validate_a em)
       (map (\<lambda>(name, field).
               (name, case field of Inl f \<Rightarrow> f | Inr t \<Rightarrow> default_field_type t))
          fields)
       constructor allow_extra_fields"

section \<open>\<open>DictWithDefault\<close> objects and the dictionary they refer to\<close>

text \<open>
  \<open>self.values\<close> is a reference to a dictionary object, and \<open>__setitem__\<close> and
  \<open>__delitem__\<close> change that object in place. The store maps the address of a
  dictionary object to its entries. The default \<open>{}\<close> of the parameter \<open>values\<close> is one
  object, made when the \<open>def\<close> of \<open>__init__\<close> is executed: \<open>module_store\<close> is the store
  after the module has been imported, which holds this object at \<open>default_values\<close>.
  A \<open>DictWithDefault\<close> instance holds the address of its dictionary and its default;
  \<open>values_arg = None\<close> stands for a call that does not pass \<open>values\<close>.
\<close>

type_synonym addr = nat

type_synonym store = "addr \<Rightarrow> (key \<times> ptype) list option"

datatype DictWithDefault_obj =
  DictWithDefault_obj (values_ref: addr) (default_type: "ptype option")

definition default_values :: addr where
  "default_values = 0"

definition module_store :: store where
  "module_store = (\<lambda>a. if a = default_values then Some [] else None)"

definition DictWithDefault_init :: "addr option \<Rightarrow> ptype option \<Rightarrow> DictWithDefault_obj" where
  "DictWithDefault_init values_arg default_arg =
     DictWithDefault_obj
       (case values_arg of None \<Rightarrow> default_values | Some a \<Rightarrow> a) default_arg"

text \<open>
  What an instance looks like in a store: its entries and its default, by value.
  The methods that only read are those of the by-value \<open>DictWithDefault\<close> on this view.
  An instance always refers to a dictionary that is in the store.
\<close>

definition DictWithDefault_view :: "store \<Rightarrow> DictWithDefault_obj \<Rightarrow> ptype DictWithDefault" where
  "DictWithDefault_view h self =
     DictWithDefault (case h (values_ref self) of None \<Rightarrow> [] | Some d \<Rightarrow> d) (default_type self)"

definition DictWithDefault_obj_get :: "store \<Rightarrow> DictWithDefault_obj \<Rightarrow> key \<Rightarrow> ptype option" where
  "DictWithDefault_obj_get h self k = DictWithDefault_get (DictWithDefault_view h self) k"

definition DictWithDefault_len :: "store \<Rightarrow> DictWithDefault_obj \<Rightarrow> nat" where
  "DictWithDefault_len h self = length (values_of (DictWithDefault_view h self))"

definition DictWithDefault_setitem ::
  "store \<Rightarrow> DictWithDefault_obj \<Rightarrow> key \<Rightarrow> ptype \<Rightarrow> store" where
  "DictWithDefault_setitem h self k v =
     (case h (values_ref self) of
        None \<Rightarrow> h
      | Some d \<Rightarrow> h(values_ref self := Some (AList.update k v d)))"

definition DictWithDefault_delitem ::
  "store \<Rightarrow> DictWithDefault_obj \<Rightarrow> key \<Rightarrow> exn + store" where
  "DictWithDefault_delitem h self k =
     (case h (values_ref self) of
        None \<Rightarrow> Inl KeyError
      | Some d \<Rightarrow>
          (if k \<in> fst ` set d then Inr (h(values_ref self := Some (AList.delete k d)))
           else Inl KeyError))"

text \<open>
  \<open>Dict.__init__\<close>: a \<open>Type\<close> is wrapped into \<open>DictWithDefault(default=value_type)\<close>, a
  call that does not pass \<open>values\<close>. \<open>Dict_in\<close> is the descriptor that a \<open>Dict\<close>
  instance is in a store.
\<close>

definition Dict_value_types :: "ptype + DictWithDefault_obj \<Rightarrow> DictWithDefault_obj" where
  "Dict_value_types value_type =
     (case value_type of
        Inl t \<Rightarrow> DictWithDefault_init None (Some t)
      | Inr value_types \<Rightarrow> value_types)"

definition Dict_in :: "store \<Rightarrow> Type_attrs \<Rightarrow> DictWithDefault_obj \<Rightarrow> ptype" where
  "Dict_in h self value_types = Dict self (DictWithDefault_view h value_types)"

section \<open>Notions used to state the properties\<close>

text \<open>
  An outcome crashes when it is an exception other than a \<open>ValidationError\<close>: the
  loops catch only that class, so such an exception leaves \<open>load\<close> at once.
\<close>

definition crashes :: "exn + 'a \<Rightarrow> bool" where
  "crashes r =
     (case r of Inr x \<Rightarrow> False | Inl e \<Rightarrow> (case e of ValidationError m \<Rightarrow> False | _ \<Rightarrow> True))"



text \<open>Recording a list of failures, one \<open>add_error\<close> each.\<close>

definition record_all ::
  "ValidationErrorBuilder \<Rightarrow> (key \<times> msgs) list \<Rightarrow> ValidationErrorBuilder" where
  "record_all eb errs = fold (\<lambda>(k, m) eb. add_error eb k m) errs eb"

text \<open>
  What the loop of \<open>Dict.load\<close> is expected to record and to collect: the failures of
  the values whose key resolves to a type, and the converted values of such keys.
  \<open>store_all\<close> is the sequence of \<open>result[k] = x\<close>.
\<close>

fun dict_errors ::
  "(key \<Rightarrow> (pyval \<Rightarrow> exn + pyval) option) \<Rightarrow> (key \<times> pyval) list \<Rightarrow> (key \<times> msgs) list" where
  "dict_errors vt [] = []"
| "dict_errors vt ((k, v) # rest) =
     (case vt k of
        None \<Rightarrow> dict_errors vt rest
      | Some conv \<Rightarrow>
          (case conv v of
             Inr x \<Rightarrow> dict_errors vt rest
           | Inl e \<Rightarrow>
               (case e of
                  ValidationError m \<Rightarrow> (k, m) # dict_errors vt rest
                | _ \<Rightarrow> dict_errors vt rest)))"

fun dict_values ::
  "(key \<Rightarrow> (pyval \<Rightarrow> exn + pyval) option) \<Rightarrow> (key \<times> pyval) list \<Rightarrow> (key \<times> pyval) list" where
  "dict_values vt [] = []"
| "dict_values vt ((k, v) # rest) =
     (case vt k of
        None \<Rightarrow> dict_values vt rest
      | Some conv \<Rightarrow>
          (case conv v of
             Inr x \<Rightarrow> (k, x) # dict_values vt rest
           | Inl e \<Rightarrow> dict_values vt rest))"

definition store_all :: "('k \<times> 'v) list \<Rightarrow> ('k \<times> 'v) list \<Rightarrow> ('k \<times> 'v) list" where
  "store_all result kvs = fold (\<lambda>(k, x) r. AList.update k x r) kvs result"

text \<open>
  What the loops of \<open>Object.load\<close> are expected to record and to collect: the
  failures of the fields under their names, the loaded values that are not
  \<open>MISSING\<close>, and the \<open>unknown\<close> message under every key that is no field name.
\<close>

fun field_errors :: "(string \<times> pfield) list \<Rightarrow> pyval \<Rightarrow> (key \<times> msgs) list" where
  "field_errors [] data = []"
| "field_errors ((name, field) # rest) data =
     (case Field_load field name data of
        Inr x \<Rightarrow> field_errors rest data
      | Inl e \<Rightarrow>
          (case e of
             ValidationError m \<Rightarrow> (KStr name, m) # field_errors rest data
           | _ \<Rightarrow> field_errors rest data))"

fun field_values :: "(string \<times> pfield) list \<Rightarrow> pyval \<Rightarrow> (string \<times> pyval) list" where
  "field_values [] data = []"
| "field_values ((name, field) # rest) data =
     (case Field_load field name data of
        Inr x \<Rightarrow> (if x \<noteq> MISSING then (name, x) # field_values rest data
                  else field_values rest data)
      | Inl e \<Rightarrow> field_values rest data)"


text \<open>
  What the loop of \<open>Object.dump\<close> is expected to collect when no field fails: the
  dumped values that are not \<open>MISSING\<close>. \<open>kwargs_dict\<close> is the assembled mapping as a
  dictionary.
\<close>

fun field_dumps :: "(string \<times> pfield) list \<Rightarrow> pyval \<Rightarrow> (string \<times> pyval) list" where
  "field_dumps [] obj = []"
| "field_dumps ((name, field) # rest) obj =
     (case Field_dump field name obj of
        Inr x \<Rightarrow> (if x \<noteq> MISSING then (name, x) # field_dumps rest obj
                  else field_dumps rest obj)
      | Inl e \<Rightarrow> field_dumps rest obj)"

definition kwargs_dict :: "(string \<times> pyval) list \<Rightarrow> (key \<times> pyval) list" where
  "kwargs_dict result = map (\<lambda>(n, v). (KStr n, v)) result"

section \<open>The scalar types\<close>

lemma run_validators_accept:
  "\<forall>f \<in> set vs. f v = None \<Longrightarrow> run_validators vs v eb = Inr eb"
  by (induction vs) simp_all

lemma Type_load_accept:
  "\<forall>f \<in> set (validators self). f v = None \<Longrightarrow> Type_load self v = Inr v"
  by (simp add: Type_load_def run_validators_accept raise_errors_def)

text \<open>
  The default templates are the strings of the source.
\<close>

lemma default_templates_spelled:
  "map (\<lambda>(k, m). (k, message_of m)) Type_default_error_messages
     = [(''invalid_type'', Msg ''Value should be {expected}''),
        (''required'', Msg ''Value is required'')]"
  "map_of Tuple_default_error_messages ''invalid_length''
     = Some (Template [Text ''Value length should be '', Repl Expected_length])"
  "message_of (Template [Text ''Value length should be '', Repl Expected_length])
     = Msg ''Value length should be {expected_length}''"
  "map_of Object_default_error_messages ''unknown'' = Some (Template [Text ''Unknown field''])"
  "message_of (Template [Text ''Unknown field'']) = Msg ''Unknown field''"
  by (simp_all add: Type_default_error_messages_def Tuple_default_error_messages_def
      Object_default_error_messages_def dict_merge_def)

lemma default_required:
  "Type_fail (Type_init Type_default_error_messages va None) ''required'' []
     = Inl (ValidationError (Msg ''Value is required''))"
  by (simp add: Type_fail_def Type_init_def Type_default_error_messages_def dict_merge_def)

lemma default_invalid_type_integer:
  "Type_fail (Type_init Type_default_error_messages va None) ''invalid_type''
       [(Expected, ''integer'')]
     = Inl (ValidationError (Msg ''Value should be integer''))"
  by (simp add: Type_fail_def Type_init_def Type_default_error_messages_def dict_merge_def)

lemma default_invalid_type_string:
  "Type_fail (Type_init Type_default_error_messages va None) ''invalid_type''
       [(Expected, ''string'')]
     = Inl (ValidationError (Msg ''Value should be string''))"
  by (simp add: Type_fail_def Type_init_def Type_default_error_messages_def dict_merge_def)

lemma default_invalid_type_boolean:
  "Type_fail (Type_init Type_default_error_messages va None) ''invalid_type''
       [(Expected, ''boolean'')]
     = Inl (ValidationError (Msg ''Value should be boolean''))"
  by (simp add: Type_fail_def Type_init_def Type_default_error_messages_def dict_merge_def)

lemma validators_Type_init: "validators (Type_init d va em) = validators_of va"
  by (simp add: Type_init_def)

lemma Integer_load_cases:
  assumes "\<forall>f \<in> set (validators_of va). f v = None"
  shows "load (Integer_init va None) v =
     (if v = MISSING \<or> v = PNone then Inl (ValidationError (Msg ''Value is required''))
      else if \<not> isinstance_int_types v then
        Inl (ValidationError (Msg ''Value should be integer''))
      else Inr v)"
  using assms
  by (simp add: Integer_init_def default_required default_invalid_type_integer
      Type_load_accept validators_Type_init)

lemma String_load_cases:
  assumes "\<forall>f \<in> set (validators_of va). f v = None"
  shows "load (String_init va None) v =
     (if v = MISSING \<or> v = PNone then Inl (ValidationError (Msg ''Value is required''))
      else if \<not> isinstance_string_types v then
        Inl (ValidationError (Msg ''Value should be string''))
      else Inr v)"
  using assms
  by (simp add: String_init_def default_required default_invalid_type_string
      Type_load_accept validators_Type_init)

lemma Boolean_load_cases:
  assumes "\<forall>f \<in> set (validators_of va). f v = None"
  shows "load (Boolean_init va None) v =
     (if v = MISSING \<or> v = PNone then Inl (ValidationError (Msg ''Value is required''))
      else if \<not> isinstance_bool v then
        Inl (ValidationError (Msg ''Value should be boolean''))
      else Inr v)"
  using assms
  by (simp add: Boolean_init_def default_required default_invalid_type_boolean
      Type_load_accept validators_Type_init)

text \<open>
  C4: for each of \<open>Integer\<close>, \<open>String\<close> and \<open>Boolean\<close> (with the default messages, and
  with extra validators, if any, that accept the value) and every value \<open>v\<close>:
  \<open>load\<close> raises the \<open>required\<close> failure iff \<open>v\<close> is \<open>MISSING\<close> or \<open>None\<close>; it raises the
  \<open>invalid_type\<close> failure iff \<open>v\<close> is neither and fails the type's \<open>isinstance\<close> test;
  and it returns \<open>v\<close> itself iff \<open>v\<close> is neither and passes the test.
\<close>

theorem C4_scalar_load:
  assumes "\<forall>f \<in> set (validators_of va). f v = None"
  shows
    "(load (Integer_init va None) v = Inl (ValidationError (Msg ''Value is required''))
        \<longleftrightarrow> v = MISSING \<or> v = PNone)
   \<and> (load (Integer_init va None) v = Inl (ValidationError (Msg ''Value should be integer''))
        \<longleftrightarrow> v \<noteq> MISSING \<and> v \<noteq> PNone \<and> \<not> isinstance_int_types v)
   \<and> (load (Integer_init va None) v = Inr v
        \<longleftrightarrow> v \<noteq> MISSING \<and> v \<noteq> PNone \<and> isinstance_int_types v)
   \<and> (load (String_init va None) v = Inl (ValidationError (Msg ''Value is required''))
        \<longleftrightarrow> v = MISSING \<or> v = PNone)
   \<and> (load (String_init va None) v = Inl (ValidationError (Msg ''Value should be string''))
        \<longleftrightarrow> v \<noteq> MISSING \<and> v \<noteq> PNone \<and> \<not> isinstance_string_types v)
   \<and> (load (String_init va None) v = Inr v
        \<longleftrightarrow> v \<noteq> MISSING \<and> v \<noteq> PNone \<and> isinstance_string_types v)
   \<and> (load (Boolean_init va None) v = Inl (ValidationError (Msg ''Value is required''))
        \<longleftrightarrow> v = MISSING \<or> v = PNone)
   \<and> (load (Boolean_init va None) v = Inl (ValidationError (Msg ''Value should be boolean''))
        \<longleftrightarrow> v \<noteq> MISSING \<and> v \<noteq> PNone \<and> \<not> isinstance_bool v)
   \<and> (load (Boolean_init va None) v = Inr v
        \<longleftrightarrow> v \<noteq> MISSING \<and> v \<noteq> PNone \<and> isinstance_bool v)"
  by (simp add: Integer_load_cases [OF assms] String_load_cases [OF assms]
      Boolean_load_cases [OF assms])

theorem C4_scalar_load_witness:
  "(\<lambda>v. if v = PInt 0 then Some (ValidationError (Msg ''zero'')) else None) (PInt 5) = None
   \<and> load (Integer_init
             (VCallable (\<lambda>v. if v = PInt 0 then Some (ValidationError (Msg ''zero'')) else None))
             None) (PInt 5)
       = Inr (PInt 5)
   \<and> load (Integer_init
             (VCallable (\<lambda>v. if v = PInt 0 then Some (ValidationError (Msg ''zero'')) else None))
             None) (PInt 5)
       \<noteq> Inl (ValidationError (Msg ''Value should be integer''))"
  using C4_scalar_load
    [of "VCallable (\<lambda>v. if v = PInt 0 then Some (ValidationError (Msg ''zero'')) else None)"
        "PInt 5"]
  by simp

text \<open>
  The same for the descriptors \<open>Integer()\<close>, \<open>String()\<close> and \<open>Boolean()\<close>, which have no
  extra validators: the outcome of \<open>load\<close> is fixed by the value alone.
\<close>

lemma scalar_load_without_validators:
  "load (Integer_init VNone None) v =
     (if v = MISSING \<or> v = PNone then Inl (ValidationError (Msg ''Value is required''))
      else if \<not> isinstance_int_types v then
        Inl (ValidationError (Msg ''Value should be integer''))
      else Inr v)"
  "load (String_init VNone None) v =
     (if v = MISSING \<or> v = PNone then Inl (ValidationError (Msg ''Value is required''))
      else if \<not> isinstance_string_types v then
        Inl (ValidationError (Msg ''Value should be string''))
      else Inr v)"
  "load (Boolean_init VNone None) v =
     (if v = MISSING \<or> v = PNone then Inl (ValidationError (Msg ''Value is required''))
      else if \<not> isinstance_bool v then
        Inl (ValidationError (Msg ''Value should be boolean''))
      else Inr v)"
  by (simp_all only: Integer_load_cases String_load_cases Boolean_load_cases
      validators_of.simps list.set ball_empty)

text \<open>
  C10: \<open>Integer\<close> accepts the booleans: for every boolean \<open>b\<close>, \<open>Integer.load(b)\<close> (with
  extra validators, if any, that accept \<open>b\<close>) and \<open>Integer.dump(b)\<close> return \<open>b\<close>
  itself, because \<open>isinstance(b, int_types)\<close> holds; \<open>Boolean.load\<close> raises the
  \<open>invalid_type\<close> failure for every integer that is not a boolean.
\<close>

theorem C10_Integer_accepts_bool:
  assumes "\<forall>f \<in> set (validators_of va). f (PBool b) = None"
  shows
    "load (Integer_init va em) (PBool b) = Inr (PBool b)
   \<and> dump (Integer_init va em) (PBool b) = Inr (PBool b)
   \<and> load (Boolean_init va' None) (PInt i)
       = Inl (ValidationError (Msg ''Value should be boolean''))"
  using assms
  by (simp add: Integer_init_def Boolean_init_def Type_load_accept validators_Type_init
      Type_dump_def default_invalid_type_boolean)

theorem C10_Integer_accepts_bool_witness:
  "(\<lambda>v. if v = PInt 0 then Some (ValidationError (Msg ''zero'')) else None) (PBool True) = None
   \<and> load (Integer_init
             (VCallable (\<lambda>v. if v = PInt 0 then Some (ValidationError (Msg ''zero'')) else None))
             None) (PBool True)
       = Inr (PBool True)
   \<and> dump (Integer_init VNone None) (PBool True) = Inr (PBool True)
   \<and> load (Boolean_init VNone None) (PInt 1)
       = Inl (ValidationError (Msg ''Value should be boolean''))"
  using C10_Integer_accepts_bool
    [of "VCallable (\<lambda>v. if v = PInt 0 then Some (ValidationError (Msg ''zero'')) else None)"
        True None VNone 1]
    C10_Integer_accepts_bool [of VNone True None VNone 1]
  by simp

section \<open>\<open>Tuple\<close>: the loop never gets past its first element\<close>

lemma Tuple_loop_Cons: "Tuple_loop idx (p # ps) eb result = Inl AttributeError"
  by (cases p) (simp add: list_getattr_def)

lemma Tuple_load_nonempty:
  assumes "item_types \<noteq> []" and "length xs = length item_types"
  shows "load (Tuple self item_types) (PList xs) = Inl AttributeError"
proof -
  from assms obtain t ts x xs' where "item_types = t # ts" and "xs = x # xs'"
    by (cases item_types; cases xs) auto
  with assms show ?thesis
    by (simp add: Tuple_loop_Cons)
qed

text \<open>
  C1 (fails on the code): \<open>validate\<close> is claimed to return a mapping for every
  descriptor and every input and never to raise. For the descriptor
  \<open>Tuple([Integer()])\<close> and the input \<open>[1]\<close> it raises the \<open>AttributeError\<close> of
  \<open>result.add\<close>, which \<open>validate\<close> does not catch.
\<close>

theorem C1_validate_Tuple_raises:
  "validate (Tuple_init [Integer_init VNone None] VNone None) (PList [PInt 1])
     = Inl AttributeError"
  by (simp only: validate_def Tuple_init_def Tuple_load_nonempty [of "[Integer_init VNone None]" "[PInt 1]"]
      list.distinct list.size sum.case exn.case not_False_eq_True)

text \<open>
  C2 (fails on the code): \<open>Tuple.load\<close> is claimed to load each element with the child
  type at its position, to record failures per index and to return the converted
  elements. For every \<open>Tuple\<close> descriptor with at least one child type and every list
  of the same length it raises \<open>AttributeError\<close> instead: no element is loaded, no
  failure is recorded and nothing is returned.
\<close>

theorem C2_Tuple_load_raises:
  assumes "item_types \<noteq> []" and "length xs = length item_types"
  shows "load (Tuple self item_types) (PList xs) = Inl AttributeError"
  using assms by (rule Tuple_load_nonempty)

theorem C2_Tuple_load_raises_witness:
  "[Integer_init VNone None, String_init VNone None] \<noteq> []
   \<and> length [PInt 1, PStr ''a''] = length [Integer_init VNone None, String_init VNone None]
   \<and> load (Tuple_init [Integer_init VNone None, String_init VNone None] VNone None)
         (PList [PInt 1, PStr ''a''])
       = Inl AttributeError"
  using C2_Tuple_load_raises
    [of "[Integer_init VNone None, String_init VNone None]" "[PInt 1, PStr ''a'']"
        "Type_init Tuple_default_error_messages VNone None"]
  by (simp add: Tuple_init_def)

section \<open>\<open>Object.dump\<close>: a failing field\<close>

text \<open>
  C3 (fails on the code): \<open>Object.dump\<close> is claimed to record a field's validation
  failure under the field's name and to raise the aggregated tree. For the schema
  \<open>Object({'x': Integer()})\<close> and an object whose attribute \<open>x\<close> is the string \<open>'a'\<close>
  the handler reads the unbound name \<open>k\<close> and the call raises \<open>NameError\<close>.
\<close>

theorem C3_Object_dump_NameError:
  "dump (Object_init [(''x'', Inr (Integer_init VNone None))] dict_constructor
           (\<lambda>t. AttributeField t None) True VNone None)
     (PObject [(''x'', PStr ''a'')])
   = Inl NameError"
  by (simp add: Object_init_def Integer_init_def Type_init_def Type_fail_def
      Type_default_error_messages_def Object_default_error_messages_def dict_merge_def
      unbound_name_def)

section \<open>\<open>List.load\<close>: every failing element is reported\<close>

lemma record_all_Nil [simp]: "record_all eb [] = eb"
  by (simp add: record_all_def)

lemma record_all_Cons [simp]:
  "record_all eb ((k, m) # errs) = record_all (add_error eb k m) errs"
  by (simp add: record_all_def)

lemma add_error_None: "add_error None k m = Some (MsgMap [(k, m)])"
  by (simp add: add_error_def add_errors_def)

lemma add_error_fresh:
  "map_of a k = None \<Longrightarrow> add_error (Some (MsgMap a)) k m = Some (MsgMap (a @ [(k, m)]))"
  by (simp add: add_error_def add_errors_def)

lemma record_all_Some:
  "distinct (map fst (a @ errs)) \<Longrightarrow>
     record_all (Some (MsgMap a)) errs = Some (MsgMap (a @ errs))"
proof (induction errs arbitrary: a)
  case Nil
  then show ?case by simp
next
  case (Cons p errs)
  obtain k m where p: "p = (k, m)" by (cases p)
  from Cons.prems p have fresh: "map_of a k = None"
    by (auto simp: map_of_eq_None_iff)
  from Cons.prems p have "distinct (map fst ((a @ [(k, m)]) @ errs))" by simp
  then have "record_all (Some (MsgMap (a @ [(k, m)]))) errs = Some (MsgMap ((a @ [(k, m)]) @ errs))"
    by (rule Cons.IH)
  with fresh p show ?case by (simp add: add_error_fresh)
qed

lemma record_all_None:
  "distinct (map fst errs) \<Longrightarrow>
     record_all None errs = (if errs = [] then None else Some (MsgMap errs))"
proof (cases errs)
  case Nil
  then show ?thesis by simp
next
  case (Cons p errs')
  assume d: "distinct (map fst errs)"
  obtain k m where p: "p = (k, m)" by (cases p)
  from d Cons p have "distinct (map fst ([(k, m)] @ errs'))" by simp
  then have "record_all (Some (MsgMap [(k, m)])) errs' = Some (MsgMap ([(k, m)] @ errs'))"
    by (rule record_all_Some)
  with Cons p show ?thesis by (simp add: add_error_None)
qed










section \<open>\<open>Dict.load\<close>: keys without a type are skipped\<close>

lemma store_all_Nil [simp]: "store_all result [] = result"
  by (simp add: store_all_def)

lemma store_all_Cons [simp]:
  "store_all result ((k, x) # kvs) = store_all (AList.update k x result) kvs"
  by (simp add: store_all_def)

lemma update_fresh: "k \<notin> fst ` set r \<Longrightarrow> AList.update k x r = r @ [(k, x)]"
  by (induction r) auto

lemma store_all_distinct:
  "distinct (map fst (r @ kvs)) \<Longrightarrow> store_all r kvs = r @ kvs"
proof (induction kvs arbitrary: r)
  case Nil
  then show ?case by simp
next
  case (Cons p kvs)
  obtain k x where p: "p = (k, x)" by (cases p)
  from Cons.prems p have fresh: "k \<notin> fst ` set r" by auto
  from Cons.prems p have "distinct (map fst ((r @ [(k, x)]) @ kvs))" by simp
  then have "store_all (r @ [(k, x)]) kvs = (r @ [(k, x)]) @ kvs"
    by (rule Cons.IH)
  with fresh p show ?case by (simp add: update_fresh)
qed

lemma Dict_loop_run:
  "\<forall>(k, v) \<in> set kvs. \<forall>conv. vt k = Some conv \<longrightarrow> \<not> crashes (conv v) \<Longrightarrow>
     Dict_loop vt kvs eb result
       = Inr (record_all eb (dict_errors vt kvs), store_all result (dict_values vt kvs))"
proof (induction kvs arbitrary: eb result)
  case Nil
  then show ?case by simp
next
  case (Cons p kvs)
  obtain k v where p: "p = (k, v)" by (cases p)
  with Cons show ?case
    by (auto simp: crashes_def split: option.splits sum.splits exn.splits)
qed

lemma Dict_loop_filter:
  "Dict_loop vt (filter (\<lambda>(k, v). vt k \<noteq> None) kvs) eb result = Dict_loop vt kvs eb result"
proof (induction kvs arbitrary: eb result)
  case Nil
  then show ?case by simp
next
  case (Cons p kvs)
  obtain k v where p: "p = (k, v)" by (cases p)
  with Cons show ?case
    by (auto split: option.splits sum.splits exn.splits)
qed

lemma Dict_loop_Inr_no_crash:
  "Dict_loop vt kvs eb result = Inr out \<Longrightarrow>
     \<forall>(k, v) \<in> set kvs. \<forall>conv. vt k = Some conv \<longrightarrow> \<not> crashes (conv v)"
proof (induction kvs arbitrary: eb result)
  case Nil
  then show ?case by simp
next
  case (Cons p kvs)
  obtain k v where p: "p = (k, v)" by (cases p)
  let ?rest = "\<forall>(k, v) \<in> set kvs. \<forall>conv. vt k = Some conv \<longrightarrow> \<not> crashes (conv v)"
  show ?case
  proof (cases "vt k")
    case None
    with Cons.prems p have "Dict_loop vt kvs eb result = Inr out" by simp
    then have ?rest by (rule Cons.IH)
    with None p show ?thesis by simp
  next
    case (Some conv)
    show ?thesis
    proof (cases "conv v")
      case (Inr x)
      with Cons.prems p Some
      have "Dict_loop vt kvs eb (AList.update k x result) = Inr out" by simp
      then have ?rest by (rule Cons.IH)
      with Some Inr p show ?thesis by (simp add: crashes_def)
    next
      case (Inl e)
      show ?thesis
      proof (cases e)
        case (ValidationError m)
        with Cons.prems p Some Inl
        have "Dict_loop vt kvs (add_error eb k m) result = Inr out" by simp
        then have ?rest by (rule Cons.IH)
        with Some Inl ValidationError p show ?thesis by (simp add: crashes_def)
      qed (use Cons.prems p Some Inl in simp_all)
    qed
  qed
qed

lemma dict_errors_keys:
  "map fst (dict_errors vt kvs)
     = map fst (filter (\<lambda>(k, v). \<exists>conv m. vt k = Some conv \<and> conv v = Inl (ValidationError m)) kvs)"
proof (induction kvs)
  case Nil
  then show ?case by simp
next
  case (Cons p kvs)
  obtain k v where p: "p = (k, v)" by (cases p)
  with Cons show ?case
    by (auto split: option.splits sum.splits exn.splits)
qed

lemma dict_values_keys:
  "map fst (dict_values vt kvs)
     = map fst (filter (\<lambda>(k, v). \<exists>conv x. vt k = Some conv \<and> conv v = Inr x) kvs)"
proof (induction kvs)
  case Nil
  then show ?case by simp
next
  case (Cons p kvs)
  obtain k v where p: "p = (k, v)" by (cases p)
  with Cons show ?case
    by (auto split: option.splits sum.splits exn.splits)
qed

lemma dict_errors_distinct: "distinct (map fst kvs) \<Longrightarrow> distinct (map fst (dict_errors vt kvs))"
  by (simp add: dict_errors_keys distinct_map_filter)

lemma dict_values_distinct: "distinct (map fst kvs) \<Longrightarrow> distinct (map fst (dict_values vt kvs))"
  by (simp add: dict_values_keys distinct_map_filter)

lemma dict_errors_absent: "k \<notin> fst ` set kvs \<Longrightarrow> map_of (dict_errors vt kvs) k = None"
proof -
  assume "k \<notin> fst ` set kvs"
  then have "k \<notin> set (map fst (dict_errors vt kvs))"
    unfolding dict_errors_keys by auto
  then show ?thesis by (simp add: map_of_eq_None_iff)
qed

lemma dict_values_absent: "k \<notin> fst ` set kvs \<Longrightarrow> map_of (dict_values vt kvs) k = None"
proof -
  assume "k \<notin> fst ` set kvs"
  then have "k \<notin> set (map fst (dict_values vt kvs))"
    unfolding dict_values_keys by auto
  then show ?thesis by (simp add: map_of_eq_None_iff)
qed

lemma map_of_absent: "k \<notin> fst ` set kvs \<Longrightarrow> map_of kvs k = None"
  by (simp add: map_of_eq_None_iff)

lemma map_of_dict_errors:
  "distinct (map fst kvs) \<Longrightarrow>
     map_of (dict_errors vt kvs) k = Some m \<longleftrightarrow>
       (\<exists>v conv. map_of kvs k = Some v \<and> vt k = Some conv \<and> conv v = Inl (ValidationError m))"
proof (induction kvs)
  case Nil
  then show ?case by simp
next
  case (Cons p kvs)
  obtain k0 v0 where p: "p = (k0, v0)" by (cases p)
  show ?case
  proof (cases "k = k0")
    case True
    with Cons.prems p have "k \<notin> fst ` set kvs" by auto
    then have "map_of (dict_errors vt kvs) k = None" by (rule dict_errors_absent)
    with True p show ?thesis
      by (auto split: option.splits sum.splits exn.splits)
  next
    case False
    with Cons p show ?thesis
      by (auto split: option.splits sum.splits exn.splits)
  qed
qed

lemma map_of_dict_values:
  "distinct (map fst kvs) \<Longrightarrow>
     map_of (dict_values vt kvs) k = Some x \<longleftrightarrow>
       (\<exists>v conv. map_of kvs k = Some v \<and> vt k = Some conv \<and> conv v = Inr x)"
proof (induction kvs)
  case Nil
  then show ?case by simp
next
  case (Cons p kvs)
  obtain k0 v0 where p: "p = (k0, v0)" by (cases p)
  show ?case
  proof (cases "k = k0")
    case True
    with Cons.prems p have "k \<notin> fst ` set kvs" by auto
    then have "map_of (dict_values vt kvs) k = None" by (rule dict_values_absent)
    with True p show ?thesis
      by (auto split: option.splits sum.splits exn.splits)
  next
    case False
    with Cons p show ?thesis
      by (auto split: option.splits sum.splits exn.splits)
  qed
qed

lemma map_of_map_snd:
  "map_of (map (\<lambda>p. (fst p, f (snd p))) xs) k = map_option f (map_of xs k)"
  by (induction xs) auto

lemma DictWithDefault_get_map:
  "DictWithDefault_get (map_DictWithDefault f d) k = map_option f (DictWithDefault_get d k)"
  by (cases d)
    (auto simp: DictWithDefault_get_def DictWithDefault_getitem_def map_of_map_snd
       map_prod_def split_def split: option.splits)

lemma Type_load_Inr: "Type_load self d = Inr r \<Longrightarrow> r = d"
  by (auto simp: Type_load_def split: sum.splits)

lemma Dict_load_unfold:
  "load (Dict self value_types) (PDict kvs) =
     (case Dict_loop (\<lambda>k. map_option load (DictWithDefault_get value_types k)) kvs None [] of
        Inl e \<Rightarrow> Inl e
      | Inr (eb, result) \<Rightarrow>
          (case raise_errors eb of
             Inl e \<Rightarrow> Inl e
           | Inr u \<Rightarrow> Type_load self (PDict result)))"
proof -
  have "DictWithDefault_get (map_DictWithDefault (\<lambda>value_type v. load value_type v) value_types)
          = (\<lambda>k. map_option load (DictWithDefault_get value_types k))"
    by (rule ext) (simp add: DictWithDefault_get_map)
  then show ?thesis by simp
qed

lemma Dict_load_skip:
  "load (Dict self value_types) (PDict kvs)
     = load (Dict self value_types)
         (PDict (filter (\<lambda>(k, v). DictWithDefault_get value_types k \<noteq> None) kvs))"
proof -
  let ?vt = "\<lambda>k. map_option load (DictWithDefault_get value_types k)"
  have "filter (\<lambda>(k, v). DictWithDefault_get value_types k \<noteq> None) kvs
          = filter (\<lambda>(k, v). ?vt k \<noteq> None) kvs"
    by simp
  then show ?thesis
    by (simp only: Dict_load_unfold Dict_loop_filter)
qed

lemma Dict_load_returns:
  assumes "distinct (map fst kvs)"
    and "load (Dict self value_types) (PDict kvs) = Inr r"
  shows "\<exists>out. r = PDict out
           \<and> map fst out = filter (\<lambda>k. DictWithDefault_get value_types k \<noteq> None) (map fst kvs)
           \<and> (\<forall>k x. map_of out k = Some x \<longleftrightarrow>
                (\<exists>v t. map_of kvs k = Some v \<and> DictWithDefault_get value_types k = Some t
                   \<and> load t v = Inr x))"
proof -
  let ?vt = "\<lambda>k. map_option load (DictWithDefault_get value_types k)"
  note load = assms(2) [unfolded Dict_load_unfold]
  from load obtain eb result where loop: "Dict_loop ?vt kvs None [] = Inr (eb, result)"
    by (auto split: sum.splits)
  then have nocrash: "\<forall>(k, v) \<in> set kvs. \<forall>conv. ?vt k = Some conv \<longrightarrow> \<not> crashes (conv v)"
    by (rule Dict_loop_Inr_no_crash)
  then have run: "Dict_loop ?vt kvs None []
      = Inr (record_all None (dict_errors ?vt kvs), store_all [] (dict_values ?vt kvs))"
    by (rule Dict_loop_run)
  from assms(1) have "distinct (map fst ([] @ dict_values ?vt kvs))"
    by (simp add: dict_values_distinct)
  then have "store_all [] (dict_values ?vt kvs) = [] @ dict_values ?vt kvs"
    by (rule store_all_distinct)
  with loop run have result: "result = dict_values ?vt kvs"
    and eb: "eb = record_all None (dict_errors ?vt kvs)"
    by simp_all
  from load loop have "raise_errors eb = Inr ()"
    by (auto split: sum.splits)
  then have "eb = None"
    by (simp add: raise_errors_def split: option.splits)
  with eb assms(1) have noerr: "dict_errors ?vt kvs = []"
    by (simp add: record_all_None dict_errors_distinct split: if_splits)
  from load loop \<open>raise_errors eb = Inr ()\<close> have "Type_load self (PDict result) = Inr r"
    by simp
  then have r: "r = PDict result" by (rule Type_load_Inr)
  have conv: "(\<exists>conv x. ?vt k = Some conv \<and> conv v = Inr x)
                \<longleftrightarrow> DictWithDefault_get value_types k \<noteq> None"
    if "(k, v) \<in> set kvs" for k v
  proof (cases "DictWithDefault_get value_types k")
    case None
    then show ?thesis by simp
  next
    case (Some t)
    from that nocrash Some have nc: "\<not> crashes (load t v)" by auto
    have "\<nexists>m. load t v = Inl (ValidationError m)"
    proof
      assume "\<exists>m. load t v = Inl (ValidationError m)"
      with that Some have
        "(k, v) \<in> set (filter (\<lambda>(k, v). \<exists>conv m. ?vt k = Some conv \<and> conv v = Inl (ValidationError m)) kvs)"
        by auto
      then have "k \<in> set (map fst (dict_errors ?vt kvs))"
        unfolding dict_errors_keys by force
      with noerr show False by simp
    qed
    with nc obtain x where "load t v = Inr x"
      by (cases "load t v") (auto simp: crashes_def split: exn.splits)
    with Some show ?thesis by simp
  qed
  have "filter (\<lambda>(k, v). \<exists>conv x. ?vt k = Some conv \<and> conv v = Inr x) kvs
          = filter (\<lambda>(k, v). DictWithDefault_get value_types k \<noteq> None) kvs"
  proof (rule filter_cong [OF refl])
    fix p
    assume "p \<in> set kvs"
    moreover obtain k v where "p = (k, v)" by (cases p)
    ultimately show "(case p of (k, v) \<Rightarrow> \<exists>conv x. ?vt k = Some conv \<and> conv v = Inr x)
        = (case p of (k, v) \<Rightarrow> DictWithDefault_get value_types k \<noteq> None)"
      using conv [of k v] by (simp only: prod.case)
  qed
  then have "map fst result
          = map fst (filter (\<lambda>(k, v). DictWithDefault_get value_types k \<noteq> None) kvs)"
    unfolding result dict_values_keys by (rule arg_cong)
  also have "\<dots> = filter (\<lambda>k. DictWithDefault_get value_types k \<noteq> None) (map fst kvs)"
    by (simp add: filter_map comp_def split_def)
  finally have keys: "map fst result
      = filter (\<lambda>k. DictWithDefault_get value_types k \<noteq> None) (map fst kvs)" .
  have "map_of result k = Some x \<longleftrightarrow>
          (\<exists>v t. map_of kvs k = Some v \<and> DictWithDefault_get value_types k = Some t
             \<and> load t v = Inr x)" for k x
    unfolding result using map_of_dict_values [OF assms(1), of ?vt k x] by auto
  with r keys show ?thesis by blast
qed

lemma Dict_load_failures:
  assumes "distinct (map fst kvs)"
    and "\<forall>(k, v) \<in> set kvs. \<forall>t. DictWithDefault_get value_types k = Some t \<longrightarrow>
           \<not> crashes (load t v)"
    and "\<exists>(k, v) \<in> set kvs. \<exists>t m. DictWithDefault_get value_types k = Some t
           \<and> load t v = Inl (ValidationError m)"
  shows "\<exists>tree. load (Dict self value_types) (PDict kvs) = Inl (ValidationError (MsgMap tree))
           \<and> (\<forall>k m. map_of tree k = Some m \<longleftrightarrow>
                (\<exists>v t. map_of kvs k = Some v \<and> DictWithDefault_get value_types k = Some t
                   \<and> load t v = Inl (ValidationError m)))"
proof -
  let ?vt = "\<lambda>k. map_option load (DictWithDefault_get value_types k)"
  let ?tree = "dict_errors ?vt kvs"
  from assms(2) have "\<forall>(k, v) \<in> set kvs. \<forall>conv. ?vt k = Some conv \<longrightarrow> \<not> crashes (conv v)"
    by auto
  then have run: "Dict_loop ?vt kvs None []
      = Inr (record_all None ?tree, store_all [] (dict_values ?vt kvs))"
    by (rule Dict_loop_run)
  from assms(3) obtain k v where
    "(k, v) \<in> set (filter (\<lambda>(k, v). \<exists>conv m. ?vt k = Some conv \<and> conv v = Inl (ValidationError m)) kvs)"
    by auto
  then have "k \<in> set (map fst ?tree)"
    unfolding dict_errors_keys by force
  then have "?tree \<noteq> []" by auto
  with assms(1) have "record_all None ?tree = Some (MsgMap ?tree)"
    by (simp add: record_all_None dict_errors_distinct)
  with run have "load (Dict self value_types) (PDict kvs) = Inl (ValidationError (MsgMap ?tree))"
    unfolding Dict_load_unfold by (simp add: raise_errors_def)
  moreover have "map_of ?tree k = Some m \<longleftrightarrow>
          (\<exists>v t. map_of kvs k = Some v \<and> DictWithDefault_get value_types k = Some t
             \<and> load t v = Inl (ValidationError m))" for k m
    using map_of_dict_errors [OF assms(1), of ?vt k m] by auto
  ultimately show ?thesis by blast
qed

lemma Dict_loop_Inl:
  "Dict_loop vt kvs eb result = Inl e \<Longrightarrow> e \<noteq> ValidationError m"
proof (induction kvs arbitrary: eb result)
  case Nil
  then show ?case by simp
next
  case (Cons p kvs)
  obtain k v where p: "p = (k, v)" by (cases p)
  show ?case
  proof (cases "vt k")
    case None
    with Cons.prems p have "Dict_loop vt kvs eb result = Inl e" by simp
    then show ?thesis by (rule Cons.IH)
  next
    case (Some conv)
    show ?thesis
    proof (cases "conv v")
      case (Inr x)
      with Cons.prems p Some
      have "Dict_loop vt kvs eb (AList.update k x result) = Inl e" by simp
      then show ?thesis by (rule Cons.IH)
    next
      case (Inl e')
      show ?thesis
      proof (cases e')
        case (ValidationError m')
        with Cons.prems p Some Inl
        have "Dict_loop vt kvs (add_error eb k m') result = Inl e" by simp
        then show ?thesis by (rule Cons.IH)
      qed (use Cons.prems p Some Inl in auto)
    qed
  qed
qed

lemma DictWithDefault_get_cases:
  "DictWithDefault_get value_types k =
     (case map_of (values_of value_types) k of
        Some t \<Rightarrow> Some t
      | None \<Rightarrow> default_of value_types)"
  by (simp add: DictWithDefault_get_def DictWithDefault_getitem_def)

lemma DictWithDefault_get_None:
  "DictWithDefault_get value_types k \<noteq> None \<longleftrightarrow>
     map_of (values_of value_types) k \<noteq> None \<or> default_of value_types \<noteq> None"
  by (simp add: DictWithDefault_get_cases split: option.splits)

lemma Dict_load_raises:
  assumes "distinct (map fst kvs)"
    and "load (Dict self value_types) (PDict kvs) = Inl (ValidationError msgs)"
  shows "(\<exists>tree. msgs = MsgMap tree
            \<and> (\<forall>k m. map_of tree k = Some m \<longleftrightarrow>
                 (\<exists>v t. map_of kvs k = Some v \<and> DictWithDefault_get value_types k = Some t
                    \<and> load t v = Inl (ValidationError m))))
       \<or> (\<exists>out. map fst out
                    = filter (\<lambda>k. DictWithDefault_get value_types k \<noteq> None) (map fst kvs)
             \<and> Type_load self (PDict out) = Inl (ValidationError msgs))"
proof -
  let ?vt = "\<lambda>k. map_option load (DictWithDefault_get value_types k)"
  let ?tree = "dict_errors ?vt kvs"
  note load = assms(2) [unfolded Dict_load_unfold]
  have "\<exists>eb result. Dict_loop ?vt kvs None [] = Inr (eb, result)"
  proof (cases "Dict_loop ?vt kvs None []")
    case (Inl e)
    with load have "e = ValidationError msgs" by simp
    with Dict_loop_Inl [OF Inl, of msgs] show ?thesis by simp
  next
    case (Inr p)
    then show ?thesis by (cases p) simp
  qed
  then obtain eb result where loop: "Dict_loop ?vt kvs None [] = Inr (eb, result)"
    by blast
  then have nocrash: "\<forall>(k, v) \<in> set kvs. \<forall>conv. ?vt k = Some conv \<longrightarrow> \<not> crashes (conv v)"
    by (rule Dict_loop_Inr_no_crash)
  then have run: "Dict_loop ?vt kvs None []
      = Inr (record_all None ?tree, store_all [] (dict_values ?vt kvs))"
    by (rule Dict_loop_run)
  with loop have eb: "eb = record_all None ?tree" by simp
  have chara: "map_of ?tree k = Some m \<longleftrightarrow>
          (\<exists>v t. map_of kvs k = Some v \<and> DictWithDefault_get value_types k = Some t
             \<and> load t v = Inl (ValidationError m))" for k m
    using map_of_dict_errors [OF assms(1), of ?vt k m] by auto
  show ?thesis
  proof (cases "?tree = []")
    case False
    with assms(1) eb have "eb = Some (MsgMap ?tree)"
      by (simp add: record_all_None dict_errors_distinct)
    with load loop have "msgs = MsgMap ?tree"
      by (simp add: raise_errors_def)
    with chara show ?thesis by blast
  next
    case True
    with eb have "eb = None" by simp
    with load loop have tl: "Type_load self (PDict result) = Inl (ValidationError msgs)"
      by (simp add: raise_errors_def)
    show ?thesis
    proof -
      from assms(1) have "distinct (map fst ([] @ dict_values ?vt kvs))"
        by (simp add: dict_values_distinct)
      then have "store_all [] (dict_values ?vt kvs) = [] @ dict_values ?vt kvs"
        by (rule store_all_distinct)
      with loop run have result: "result = dict_values ?vt kvs" by simp
      have conv: "(\<exists>conv x. ?vt k = Some conv \<and> conv v = Inr x)
                    \<longleftrightarrow> DictWithDefault_get value_types k \<noteq> None"
        if "(k, v) \<in> set kvs" for k v
      proof (cases "DictWithDefault_get value_types k")
        case None
        then show ?thesis by simp
      next
        case (Some t)
        from that nocrash Some have nc: "\<not> crashes (load t v)" by auto
        have "\<nexists>m. load t v = Inl (ValidationError m)"
        proof
          assume "\<exists>m. load t v = Inl (ValidationError m)"
          with that Some have
            "(k, v) \<in> set (filter (\<lambda>(k, v). \<exists>conv m. ?vt k = Some conv \<and> conv v = Inl (ValidationError m)) kvs)"
            by auto
          then have "k \<in> set (map fst (dict_errors ?vt kvs))"
            unfolding dict_errors_keys by force
          with True show False by simp
        qed
        with nc obtain x where "load t v = Inr x"
          by (cases "load t v") (auto simp: crashes_def split: exn.splits)
        with Some show ?thesis by simp
      qed
      have "filter (\<lambda>(k, v). \<exists>conv x. ?vt k = Some conv \<and> conv v = Inr x) kvs
              = filter (\<lambda>(k, v). DictWithDefault_get value_types k \<noteq> None) kvs"
      proof (rule filter_cong [OF refl])
        fix p
        assume "p \<in> set kvs"
        moreover obtain k v where "p = (k, v)" by (cases p)
        ultimately show "(case p of (k, v) \<Rightarrow> \<exists>conv x. ?vt k = Some conv \<and> conv v = Inr x)
            = (case p of (k, v) \<Rightarrow> DictWithDefault_get value_types k \<noteq> None)"
          using conv [of k v] by (simp only: prod.case)
      qed
      then have "map fst result
              = map fst (filter (\<lambda>(k, v). DictWithDefault_get value_types k \<noteq> None) kvs)"
        unfolding result dict_values_keys by (rule arg_cong)
      also have "\<dots> = filter (\<lambda>k. DictWithDefault_get value_types k \<noteq> None) (map fst kvs)"
        by (simp add: filter_map comp_def split_def)
      finally show ?thesis using tl by blast
    qed
  qed
qed


text \<open>
  C9: for every \<open>Dict\<close> descriptor and every mapping, \<open>value_types.get(k)\<close> is the
  explicit entry for \<open>k\<close>, else the fallback default, else \<open>None\<close>; an input key that
  resolves to no child type (no explicit entry and no fallback default) is skipped:
  the outcome of \<open>load\<close> is the outcome on the mapping without these entries; a
  returned mapping has exactly the input keys that resolved to a type, in order,
  each with its converted value; and when \<open>load\<close> raises a validation failure, it is
  either a tree that has an entry exactly for the keys that resolved to a type and
  failed, or the failure of the descriptor's own validators on the assembled
  mapping. So a skipped key is neither in the result nor in the errors.
\<close>

theorem C9_Dict_load_skips_unresolved_keys:
  assumes "distinct (map fst kvs)"
  shows
    "(\<forall>k. DictWithDefault_get value_types k
           = (case map_of (values_of value_types) k of
                Some t \<Rightarrow> Some t
              | None \<Rightarrow> default_of value_types))
   \<and> load (Dict self value_types) (PDict kvs)
       = load (Dict self value_types)
           (PDict (filter (\<lambda>(k, v). map_of (values_of value_types) k \<noteq> None
                                  \<or> default_of value_types \<noteq> None) kvs))
   \<and> (\<forall>r. load (Dict self value_types) (PDict kvs) = Inr r \<longrightarrow>
         (\<exists>out. r = PDict out
            \<and> map fst out
                = filter (\<lambda>k. map_of (values_of value_types) k \<noteq> None
                             \<or> default_of value_types \<noteq> None) (map fst kvs)
            \<and> (\<forall>k x. map_of out k = Some x \<longleftrightarrow>
                 (\<exists>v t. map_of kvs k = Some v \<and> DictWithDefault_get value_types k = Some t
                    \<and> load t v = Inr x))))
   \<and> (\<forall>msgs. load (Dict self value_types) (PDict kvs) = Inl (ValidationError msgs) \<longrightarrow>
         (\<exists>tree. msgs = MsgMap tree
            \<and> (\<forall>k m. map_of tree k = Some m \<longleftrightarrow>
                 (\<exists>v t. map_of kvs k = Some v \<and> DictWithDefault_get value_types k = Some t
                    \<and> load t v = Inl (ValidationError m))))
         \<or> (\<exists>out. map fst out
                      = filter (\<lambda>k. map_of (values_of value_types) k \<noteq> None
                                   \<or> default_of value_types \<noteq> None) (map fst kvs)
               \<and> Type_load self (PDict out) = Inl (ValidationError msgs)))"
proof -
  have get: "DictWithDefault_get value_types k
      = (case map_of (values_of value_types) k of
           Some t \<Rightarrow> Some t
         | None \<Rightarrow> default_of value_types)" for k
    by (rule DictWithDefault_get_cases)
  have res: "(\<lambda>k. DictWithDefault_get value_types k \<noteq> None)
      = (\<lambda>k. map_of (values_of value_types) k \<noteq> None \<or> default_of value_types \<noteq> None)"
    by (rule ext) (rule DictWithDefault_get_None)
  have res2: "(\<lambda>(k, v :: pyval). DictWithDefault_get value_types k \<noteq> None)
      = (\<lambda>(k, v). map_of (values_of value_types) k \<noteq> None \<or> default_of value_types \<noteq> None)"
    by (rule ext) (simp only: DictWithDefault_get_None split_def)
  show ?thesis
    using get Dict_load_skip [of self value_types kvs]
      Dict_load_returns [OF assms, of self value_types]
      Dict_load_raises [OF assms, of self value_types]
    unfolding res res2 by blast
qed


theorem C9_Dict_load_skips_unresolved_keys_witness:
  "(\<exists>out. load (Dict_init (Inr (DictWithDefault [(KStr ''a'', Integer_init VNone None)] None))
                  VNone None)
             (PDict [(KStr ''a'', PInt 1), (KStr ''b'', PInt 2)])
           = Inr (PDict out)
         \<and> map fst out = [KStr ''a'']
         \<and> map_of out (KStr ''a'') = Some (PInt 1)
         \<and> map_of out (KStr ''b'') = None)
   \<and> DictWithDefault_get
        (DictWithDefault [(KStr ''a'', String_init VNone None)] (Some (Integer_init VNone None)))
        (KStr ''b'')
      = Some (Integer_init VNone None)
   \<and> (\<exists>out. load (Dict_init (Inr (DictWithDefault [(KStr ''a'', String_init VNone None)]
                                     (Some (Integer_init VNone None))))
                  VNone None)
             (PDict [(KStr ''a'', PStr ''s''), (KStr ''b'', PInt 2)])
           = Inr (PDict out)
         \<and> map fst out = [KStr ''a'', KStr ''b'']
         \<and> map_of out (KStr ''a'') = Some (PStr ''s'')
         \<and> map_of out (KStr ''b'') = Some (PInt 2))
   \<and> (\<exists>tree. load (Dict_init (Inr (DictWithDefault [(KStr ''a'', String_init VNone None)]
                                     (Some (Integer_init VNone None))))
                  VNone None)
             (PDict [(KStr ''a'', PStr ''s''), (KStr ''b'', PStr ''x'')])
           = Inl (ValidationError (MsgMap tree))
         \<and> map_of tree (KStr ''b'') = Some (Msg ''Value should be integer'')
         \<and> map_of tree (KStr ''a'') = None)"
proof -
  let ?int = "Integer_init VNone None"
  let ?str = "String_init VNone None"
  let ?vt1 = "DictWithDefault [(KStr ''a'', ?int)] None"
  let ?vt2 = "DictWithDefault [(KStr ''a'', ?str)] (Some ?int)"
  let ?self = "Type_init Type_default_error_messages VNone None"
  let ?d1 = "[(KStr ''a'', PInt 1), (KStr ''b'', PInt 2)]"
  let ?d2 = "[(KStr ''a'', PStr ''s''), (KStr ''b'', PInt 2)]"
  let ?d3 = "[(KStr ''a'', PStr ''s''), (KStr ''b'', PStr ''x'')]"
  have dist1: "distinct (map fst ?d1)" and dist2: "distinct (map fst ?d2)"
    and dist3: "distinct (map fst ?d3)"
    by simp_all
  note c1 = C9_Dict_load_skips_unresolved_keys [OF dist1, of ?vt1 ?self]
  note c2 = C9_Dict_load_skips_unresolved_keys [OF dist2, of ?vt2 ?self]
  note c3 = C9_Dict_load_skips_unresolved_keys [OF dist3, of ?vt2 ?self]
  have g1a: "DictWithDefault_get ?vt1 (KStr ''a'') = Some ?int"
    and g1b: "DictWithDefault_get ?vt1 (KStr ''b'') = None"
    using c1 by simp_all
  have g2a: "DictWithDefault_get ?vt2 (KStr ''a'') = Some ?str"
    and g2b: "DictWithDefault_get ?vt2 (KStr ''b'') = Some ?int"
    using c2 by simp_all
  have li1: "load ?int (PInt 1) = Inr (PInt 1)"
    and li2: "load ?int (PInt 2) = Inr (PInt 2)"
    and lix: "load ?int (PStr ''x'') = Inl (ValidationError (Msg ''Value should be integer''))"
    and lss: "load ?str (PStr ''s'') = Inr (PStr ''s'')"
    by (simp_all add: scalar_load_without_validators)
  have acc: "Type_load ?self d = Inr d" for d
    by (rule Type_load_accept) (simp add: validators_Type_init)
  \<comment> \<open>no default: the key \<open>b\<close> is skipped\<close>
  have r1: "load (Dict ?self ?vt1) (PDict ?d1) = Inr (PDict [(KStr ''a'', PInt 1)])"
    unfolding Dict_load_unfold
    by (simp add: g1a g1b li1 raise_errors_def acc)
  from c1 r1 obtain out1 where
    o1: "PDict [(KStr ''a'', PInt 1)] = PDict out1"
    and k1: "map fst out1 = filter (\<lambda>k. map_of (values_of ?vt1) k \<noteq> None
                                        \<or> default_of ?vt1 \<noteq> None) (map fst ?d1)"
    by blast
  have first: "\<exists>out. load (Dict ?self ?vt1) (PDict ?d1) = Inr (PDict out)
      \<and> map fst out = [KStr ''a''] \<and> map_of out (KStr ''a'') = Some (PInt 1)
      \<and> map_of out (KStr ''b'') = None"
    using r1 o1 k1 by auto
  \<comment> \<open>a fallback default: the key \<open>b\<close> is loaded with it\<close>
  have r2: "load (Dict ?self ?vt2) (PDict ?d2)
      = Inr (PDict [(KStr ''a'', PStr ''s''), (KStr ''b'', PInt 2)])"
    unfolding Dict_load_unfold
    by (simp add: g2a g2b lss li2 raise_errors_def acc)
  from c2 r2 obtain out2 where
    o2: "PDict [(KStr ''a'', PStr ''s''), (KStr ''b'', PInt 2)] = PDict out2"
    and k2: "map fst out2 = filter (\<lambda>k. map_of (values_of ?vt2) k \<noteq> None
                                        \<or> default_of ?vt2 \<noteq> None) (map fst ?d2)"
    by blast
  have second: "\<exists>out. load (Dict ?self ?vt2) (PDict ?d2) = Inr (PDict out)
      \<and> map fst out = [KStr ''a'', KStr ''b'']
      \<and> map_of out (KStr ''a'') = Some (PStr ''s'')
      \<and> map_of out (KStr ''b'') = Some (PInt 2)"
    using r2 o2 k2 by auto
  \<comment> \<open>the fallback default rejects the value of \<open>b\<close>\<close>
  have r3: "load (Dict ?self ?vt2) (PDict ?d3)
      = Inl (ValidationError (MsgMap [(KStr ''b'', Msg ''Value should be integer'')]))"
    unfolding Dict_load_unfold
    by (simp add: g2a g2b lss lix raise_errors_def add_error_def add_errors_def
        merge_errors.simps)
  from c3 r3 have
    "(\<exists>tree. MsgMap [(KStr ''b'', Msg ''Value should be integer'')] = MsgMap tree
        \<and> (\<forall>k m. map_of tree k = Some m \<longleftrightarrow>
             (\<exists>v t. map_of ?d3 k = Some v \<and> DictWithDefault_get ?vt2 k = Some t
                \<and> load t v = Inl (ValidationError m))))
     \<or> (\<exists>out. Type_load ?self (PDict out)
           = Inl (ValidationError (MsgMap [(KStr ''b'', Msg ''Value should be integer'')])))"
    by blast
  then obtain tree where
    t1: "MsgMap [(KStr ''b'', Msg ''Value should be integer'')] = MsgMap tree"
    and t2: "\<And>k m. map_of tree k = Some m \<longleftrightarrow>
             (\<exists>v t. map_of ?d3 k = Some v \<and> DictWithDefault_get ?vt2 k = Some t
                \<and> load t v = Inl (ValidationError m))"
    by (auto simp: acc)
  have "map_of tree (KStr ''b'') = Some (Msg ''Value should be integer'')"
    using t2 [of "KStr ''b''"] by (simp add: g2b lix)
  moreover have "map_of tree (KStr ''a'') = None"
  proof (cases "map_of tree (KStr ''a'')")
    case None
    then show ?thesis .
  next
    case (Some m)
    with t2 [of "KStr ''a''" m] g2a lss show ?thesis by simp
  qed
  ultimately have third: "\<exists>tree. load (Dict ?self ?vt2) (PDict ?d3)
        = Inl (ValidationError (MsgMap tree))
      \<and> map_of tree (KStr ''b'') = Some (Msg ''Value should be integer'')
      \<and> map_of tree (KStr ''a'') = None"
    using r3 t1 by auto
  from first g2b second third show ?thesis
    by (simp add: Dict_init_def)
qed

section \<open>\<open>Object.load\<close>: unknown fields\<close>


lemma Object_load_loop_run:
  "\<forall>(name, field) \<in> set fields. \<not> crashes (Field_load field name data) \<Longrightarrow>
     Object_load_loop (map (\<lambda>(name, field). (name, Field_load field)) fields) data eb result
       = Inr (record_all eb (field_errors fields data),
              store_all result (field_values fields data))"
proof (induction fields arbitrary: eb result)
  case Nil
  then show ?case by simp
next
  case (Cons p fields)
  obtain name field where p: "p = (name, field)" by (cases p)
  with Cons show ?case
    by (auto simp: crashes_def split: sum.splits exn.splits)
qed









lemma Object_load_unfold:
  "load (Object self fields constructor allow_extra_fields) (PDict kvs) =
     (case Object_load_loop (map (\<lambda>(name, field). (name, Field_load field)) fields)
             (PDict kvs) None [] of
        Inl e \<Rightarrow> Inl e
      | Inr (eb, result) \<Rightarrow>
          (case (if \<not> allow_extra_fields then
                   Object_unknown_loop (map fst kvs) (map fst fields) self eb
                 else Inr eb) of
             Inl e \<Rightarrow> Inl e
           | Inr eb' \<Rightarrow>
               (case raise_errors eb' of
                  Inl e \<Rightarrow> Inl e
                | Inr u \<Rightarrow>
                    (case Type_load self (PDict (map (\<lambda>(n, v). (KStr n, v)) result)) of
                       Inl e \<Rightarrow> Inl e
                     | Inr kwargs \<Rightarrow> constructor result))))"
  by (simp cong: if_cong sum.case_cong prod.case_cong)






lemma dict_merge_keys: "k \<in> fst ` set a \<Longrightarrow> k \<in> fst ` set (dict_merge a b)"
proof (induction b arbitrary: a)
  case Nil
  then show ?case by (simp add: dict_merge_def)
next
  case (Cons p b)
  obtain k' v' where p: "p = (k', v')" by (cases p)
  from Cons.prems have "k \<in> fst ` set (AList.update k' v' a)"
    by (simp add: dom_update)
  then have "k \<in> fst ` set (dict_merge (AList.update k' v' a) b)"
    by (rule Cons.IH)
  with p show ?case by (simp add: dict_merge_def)
qed

lemma Object_init_unknown:
  "\<exists>unknown. map_of (error_messages (Type_init Object_default_error_messages va em)) ''unknown''
      = Some unknown"
proof -
  have "''unknown'' \<in> fst ` set Object_default_error_messages"
    by (simp add: Object_default_error_messages_def Type_default_error_messages_def
        dict_merge_def)
  then have "''unknown'' \<in> fst ` set (error_messages (Type_init Object_default_error_messages va em))"
    by (simp add: Type_init_def dict_merge_keys)
  then show ?thesis
    by (cases "map_of (error_messages (Type_init Object_default_error_messages va em)) ''unknown''")
      (simp_all add: map_of_eq_None_iff)
qed




section \<open>\<open>Object\<close>: dump, then load\<close>

lemma Object_dump_loop_ok:
  "\<forall>(name, field) \<in> set fields. \<exists>p. Field_dump field name obj = Inr p \<Longrightarrow>
     Object_dump_loop (map (\<lambda>(name, field). (name, Field_dump field)) fields) obj eb result
       = Inr (eb, store_all result (field_dumps fields obj))"
proof (induction fields arbitrary: result)
  case Nil
  then show ?case by simp
next
  case (Cons p fields)
  obtain name field where p: "p = (name, field)" by (cases p)
  with Cons.prems obtain x where x: "Field_dump field name obj = Inr x" by auto
  from Cons.prems have "\<forall>(name, field) \<in> set fields. \<exists>p. Field_dump field name obj = Inr p"
    by simp
  then have "\<And>result. Object_dump_loop (map (\<lambda>(name, field). (name, Field_dump field)) fields)
        obj eb result = Inr (eb, store_all result (field_dumps fields obj))"
    by (rule Cons.IH)
  with p x show ?case
    by (simp del: Field_dump.simps)
qed

lemma field_dumps_names: "fst ` set (field_dumps fields obj) \<subseteq> fst ` set fields"
proof (induction fields)
  case Nil
  then show ?case by simp
next
  case (Cons p fields)
  obtain name field where p: "p = (name, field)" by (cases p)
  with Cons show ?case
    by (auto simp del: Field_dump.simps split: sum.splits)
qed

lemma field_dumps_distinct:
  "distinct (map fst fields) \<Longrightarrow> distinct (map fst (field_dumps fields obj))"
proof (induction fields)
  case Nil
  then show ?case by simp
next
  case (Cons p fields)
  obtain name field where p: "p = (name, field)" by (cases p)
  with Cons.prems have "name \<notin> fst ` set (field_dumps fields obj)"
    using field_dumps_names [of fields obj] by auto
  with Cons p show ?case
    by (auto simp del: Field_dump.simps split: sum.splits)
qed

lemma map_of_field_dumps:
  "distinct (map fst fields) \<Longrightarrow> (name, field) \<in> set fields \<Longrightarrow>
     Field_dump field name obj = Inr p \<Longrightarrow>
     map_of (field_dumps fields obj) name = (if p \<noteq> MISSING then Some p else None)"
proof (induction fields)
  case Nil
  then show ?case by simp
next
  case (Cons q fields)
  obtain name0 field0 where q: "q = (name0, field0)" by (cases q)
  show ?case
  proof (cases "name = name0")
    case True
    with Cons.prems q have same: "field = field0"
      by (auto simp: rev_image_eqI)
    from Cons.prems q have "name0 \<notin> fst ` set (field_dumps fields obj)"
      using field_dumps_names [of fields obj] by auto
    then have "map_of (field_dumps fields obj) name0 = None"
      by (simp add: map_of_eq_None_iff)
    with True same q Cons.prems(3) show ?thesis
      by (simp del: Field_dump.simps)
  next
    case False
    with Cons.prems q have "(name, field) \<in> set fields" and "distinct (map fst fields)"
      by auto
    then have "map_of (field_dumps fields obj) name = (if p \<noteq> MISSING then Some p else None)"
      using Cons.prems(3) Cons.IH by blast
    with False q show ?thesis
      by (simp del: Field_dump.simps split: sum.splits)
  qed
qed

lemma map_of_kwargs_dict: "map_of (kwargs_dict result) (KStr name) = map_of result name"
  unfolding kwargs_dict_def by (induction result) auto

lemma kwargs_dict_keys: "map fst (kwargs_dict result) = map KStr (map fst result)"
  unfolding kwargs_dict_def by (induction result) auto

lemma dict_get_field_dumps:
  assumes "distinct (map fst fields)" and "(name, field) \<in> set fields"
    and "Field_dump field name obj = Inr p"
  shows "dict_get (PDict (kwargs_dict (field_dumps fields obj))) (KStr name) MISSING = p"
  using map_of_field_dumps [OF assms]
  by (simp add: dict_get_def map_of_kwargs_dict)

lemma Object_unknown_loop_declared:
  "set keys \<subseteq> set (map KStr names) \<Longrightarrow> Object_unknown_loop keys names self eb = Inr eb"
  by (induction keys) auto

lemma field_errors_none:
  "\<forall>(name, field) \<in> set fields. \<exists>v. Field_load field name data = Inr v \<Longrightarrow>
     field_errors fields data = []"
proof (induction fields)
  case Nil
  then show ?case by simp
next
  case (Cons p fields)
  obtain name field where p: "p = (name, field)" by (cases p)
  with Cons show ?case
    by (auto simp del: Field_load.simps)
qed

lemma field_values_attrs:
  "map fst attrs = map fst fields \<Longrightarrow> distinct (map fst fields) \<Longrightarrow>
     \<forall>(name, field) \<in> set fields.
        \<exists>v. map_of attrs name = Some v \<and> v \<noteq> MISSING \<and> Field_load field name data = Inr v \<Longrightarrow>
     field_values fields data = attrs"
proof (induction fields arbitrary: attrs)
  case Nil
  then show ?case by simp
next
  case (Cons q fields)
  obtain name0 field0 where q: "q = (name0, field0)" by (cases q)
  with Cons.prems(1) obtain v0 attrs' where attrs: "attrs = (name0, v0) # attrs'"
    and names: "map fst attrs' = map fst fields"
    by (cases attrs) auto
  from Cons.prems(3) q attrs have head: "v0 \<noteq> MISSING" "Field_load field0 name0 data = Inr v0"
    by auto
  from Cons.prems(2) q have d: "distinct (map fst fields)" and fresh: "name0 \<notin> fst ` set fields"
    by auto
  have "\<forall>(name, field) \<in> set fields.
          \<exists>v. map_of attrs' name = Some v \<and> v \<noteq> MISSING \<and> Field_load field name data = Inr v"
  proof (clarify)
    fix name field
    assume mem: "(name, field) \<in> set fields"
    with fresh have "name \<noteq> name0" by force
    moreover from mem Cons.prems(3) obtain v where
      "map_of attrs name = Some v" "v \<noteq> MISSING" "Field_load field name data = Inr v"
      by auto
    ultimately show "\<exists>v. map_of attrs' name = Some v \<and> v \<noteq> MISSING
        \<and> Field_load field name data = Inr v"
      using attrs by auto
  qed
  with names d have "field_values fields data = attrs'"
    by (rule Cons.IH)
  with q attrs head show ?case
    by (simp del: Field_load.simps)
qed

lemma Object_dump_unfold:
  "obj \<noteq> MISSING \<Longrightarrow> obj \<noteq> PNone \<Longrightarrow>
   dump (Object self fields constructor allow_extra_fields) obj =
     (case Object_dump_loop (map (\<lambda>(name, field). (name, Field_dump field)) fields)
             obj None [] of
        Inl e \<Rightarrow> Inl e
      | Inr (eb, result) \<Rightarrow>
          (case raise_errors eb of
             Inl e \<Rightarrow> Inl e
           | Inr u \<Rightarrow> Type_dump self (PDict (kwargs_dict result))))"
  by (simp add: kwargs_dict_def del: Field_dump.simps cong: sum.case_cong prod.case_cong)

lemma Object_roundtrip:
  assumes names: "map fst attrs = map fst fields" and dn: "distinct (map fst fields)"
    and sym: "\<forall>(name, field) \<in> set fields.
        \<exists>t a v p. field = AttributeField t a \<and> name_or a name = name
          \<and> map_of attrs name = Some v \<and> v \<noteq> MISSING
          \<and> dump t v = Inr p \<and> load t p = Inr v"
    and ctor: "constructor attrs = Inr (PObject attrs)"
    and acc: "\<forall>f \<in> set (validators self). f (PDict (kwargs_dict attrs)) = None"
  shows "dump (Object self fields constructor allow_extra_fields) (PObject attrs)
           = Inr (PDict (kwargs_dict (field_dumps fields (PObject attrs))))
       \<and> load (Object self fields constructor allow_extra_fields)
             (PDict (kwargs_dict (field_dumps fields (PObject attrs))))
           = Inr (PObject attrs)"
proof -
  let ?obj = "PObject attrs"
  let ?dumps = "field_dumps fields ?obj"
  let ?data = "PDict (kwargs_dict ?dumps)"
  have each: "\<exists>t a v p. field = AttributeField t a \<and> map_of attrs name = Some v \<and> v \<noteq> MISSING
      \<and> Field_dump field name ?obj = Inr p \<and> load t p = Inr v"
    if "(name, field) \<in> set fields" for name field
  proof -
    from that sym obtain t a v p where f: "field = AttributeField t a"
      and n: "name_or a name = name" and v: "map_of attrs name = Some v" "v \<noteq> MISSING"
      and d: "dump t v = Inr p" and l: "load t p = Inr v"
      by blast
    from f n v d have "Field_dump field name ?obj = Inr p" by simp
    with f v l show ?thesis by blast
  qed
  \<comment> \<open>dump\<close>
  have "\<forall>(name, field) \<in> set fields. \<exists>p. Field_dump field name ?obj = Inr p"
    using each by blast
  then have dloop: "Object_dump_loop (map (\<lambda>(name, field). (name, Field_dump field)) fields)
      ?obj None [] = Inr (None, store_all [] ?dumps)"
    by (rule Object_dump_loop_ok)
  from dn have "distinct (map fst ([] @ ?dumps))"
    by (simp add: field_dumps_distinct)
  then have "store_all [] ?dumps = [] @ ?dumps" by (rule store_all_distinct)
  with dloop have dumped: "dump (Object self fields constructor allow_extra_fields) ?obj = Inr ?data"
    by (simp add: Object_dump_unfold raise_errors_def Type_dump_def del: dump.simps)
  \<comment> \<open>load\<close>
  have loaded: "\<exists>v. map_of attrs name = Some v \<and> v \<noteq> MISSING \<and> Field_load field name ?data = Inr v"
    if mem: "(name, field) \<in> set fields" for name field
  proof -
    from each [OF mem] obtain t a v p where f: "field = AttributeField t a"
      and v: "map_of attrs name = Some v" "v \<noteq> MISSING"
      and d: "Field_dump field name ?obj = Inr p" and l: "load t p = Inr v"
      by blast
    from dn mem d have "dict_get ?data (KStr name) MISSING = p"
      by (rule dict_get_field_dumps)
    with f l have "Field_load field name ?data = Inr v" by simp
    with v show ?thesis by blast
  qed
  then have all: "\<forall>(name, field) \<in> set fields.
      \<exists>v. map_of attrs name = Some v \<and> v \<noteq> MISSING \<and> Field_load field name ?data = Inr v"
    by blast
  then have nc: "\<forall>(name, field) \<in> set fields. \<not> crashes (Field_load field name ?data)"
    by (auto simp: crashes_def simp del: Field_load.simps)
  from all have "\<forall>(name, field) \<in> set fields. \<exists>v. Field_load field name ?data = Inr v"
    by blast
  then have noerr: "field_errors fields ?data = []" by (rule field_errors_none)
  from names dn all have vals: "field_values fields ?data = attrs" by (rule field_values_attrs)
  from names dn have "distinct (map fst ([] @ attrs))" by simp
  then have "store_all [] attrs = [] @ attrs" by (rule store_all_distinct)
  with Object_load_loop_run [OF nc, of None "[]"] noerr vals
  have lloop: "Object_load_loop (map (\<lambda>(name, field). (name, Field_load field)) fields)
      ?data None [] = Inr (None, attrs)"
    by simp
  have "set (map fst (kwargs_dict ?dumps)) \<subseteq> set (map KStr (map fst fields))"
    unfolding kwargs_dict_keys using field_dumps_names [of fields ?obj] by auto
  then have unk: "Object_unknown_loop (map fst (kwargs_dict ?dumps)) (map fst fields) self None
      = Inr None"
    by (rule Object_unknown_loop_declared)
  from acc have tl: "Type_load self (PDict (kwargs_dict attrs)) = Inr (PDict (kwargs_dict attrs))"
    by (rule Type_load_accept)
  have "load (Object self fields constructor allow_extra_fields) ?data = Inr ?obj"
    unfolding Object_load_unfold
    using lloop unk tl ctor
    by (cases allow_extra_fields) (simp_all add: raise_errors_def kwargs_dict_def)
  with dumped show ?thesis by simp
qed

text \<open>
  C7 (as amended): let the fields of an \<open>Object\<close> schema be attribute fields that read
  the attribute of their own name, let its constructor build, from the loaded fields,
  the record that has them as attributes, and let its extra validators accept the
  loaded mapping. Then for every record whose attributes are exactly the declared
  fields, each with a value that is not \<open>MISSING\<close> and that the field's type dumps to
  some plain value and loads back from it, \<open>dump\<close> returns a plain mapping and \<open>load\<close>
  of that mapping returns the record.
\<close>

theorem C7_Object_roundtrip:
  assumes "map fst attrs = map fst fields" and "distinct (map fst fields)"
    and "\<forall>(name, field) \<in> set fields.
        \<exists>t a v p. field = AttributeField t a \<and> name_or a name = name
          \<and> map_of attrs name = Some v \<and> v \<noteq> MISSING
          \<and> dump t v = Inr p \<and> load t p = Inr v"
    and "constructor attrs = Inr (PObject attrs)"
    and "\<forall>f \<in> set (validators self). f (PDict (map (\<lambda>(n, v). (KStr n, v)) attrs)) = None"
  shows "\<exists>plain. dump (Object self fields constructor allow_extra_fields) (PObject attrs)
                   = Inr plain
           \<and> load (Object self fields constructor allow_extra_fields) plain
               = Inr (PObject attrs)"
proof -
  from assms(5) have "\<forall>f \<in> set (validators self). f (PDict (kwargs_dict attrs)) = None"
    by (simp add: kwargs_dict_def)
  with assms(1-4) show ?thesis
    using Object_roundtrip
      [where attrs = attrs and fields = fields and constructor = constructor and self = self
         and allow_extra_fields = allow_extra_fields]
    by blast
qed

theorem C7_Object_roundtrip_witness:
  "\<exists>plain.
     dump (Object_init
             [(''x'', Inr (Integer_init VNone None)),
              (''s'', Inl (AttributeField (String_init VNone None) (Some ''s'')))]
             (\<lambda>kwargs. Inr (PObject kwargs)) (\<lambda>t. AttributeField t None) False VNone None)
       (PObject [(''x'', PInt 1), (''s'', PStr ''a'')])
     = Inr plain
   \<and> load (Object_init
             [(''x'', Inr (Integer_init VNone None)),
              (''s'', Inl (AttributeField (String_init VNone None) (Some ''s'')))]
             (\<lambda>kwargs. Inr (PObject kwargs)) (\<lambda>t. AttributeField t None) False VNone None)
       plain
     = Inr (PObject [(''x'', PInt 1), (''s'', PStr ''a'')])"
proof -
  let ?ti = "Integer_init VNone None"
  let ?ts = "String_init VNone None"
  let ?fields = "[(''x'', AttributeField ?ti None), (''s'', AttributeField ?ts (Some ''s''))]"
  let ?attrs = "[(''x'', PInt 1), (''s'', PStr ''a'')]"
  let ?self = "Type_init Object_default_error_messages VNone None"
  let ?ctor = "\<lambda>kwargs :: (string \<times> pyval) list. (Inr (PObject kwargs) :: exn + pyval)"
  have li: "load ?ti (PInt 1) = Inr (PInt 1)" and ls: "load ?ts (PStr ''a'') = Inr (PStr ''a'')"
    by (simp_all add: Integer_load_cases String_load_cases)
  have di: "dump ?ti (PInt 1) = Inr (PInt 1)" and ds: "dump ?ts (PStr ''a'') = Inr (PStr ''a'')"
    by (simp_all add: Integer_init_def String_init_def Type_dump_def)
  have h1: "map fst ?attrs = map fst ?fields" and h2: "distinct (map fst ?fields)"
    by simp_all
  have "\<exists>t a v p. AttributeField ?ti None = AttributeField t a \<and> name_or a ''x'' = ''x''
          \<and> map_of ?attrs ''x'' = Some v \<and> v \<noteq> MISSING \<and> dump t v = Inr p \<and> load t p = Inr v"
    using li di by (intro exI [of _ ?ti] exI [of _ None] exI [of _ "PInt 1"]) simp
  moreover have "\<exists>t a v p. AttributeField ?ts (Some ''s'') = AttributeField t a
          \<and> name_or a ''s'' = ''s''
          \<and> map_of ?attrs ''s'' = Some v \<and> v \<noteq> MISSING \<and> dump t v = Inr p \<and> load t p = Inr v"
    using ls ds by (intro exI [of _ ?ts] exI [of _ "Some ''s''"] exI [of _ "PStr ''a''"]) simp
  ultimately have h3: "\<forall>(name, field) \<in> set ?fields.
        \<exists>t a v p. field = AttributeField t a \<and> name_or a name = name
          \<and> map_of ?attrs name = Some v \<and> v \<noteq> MISSING
          \<and> dump t v = Inr p \<and> load t p = Inr v"
    by simp
  have h4: "?ctor ?attrs = Inr (PObject ?attrs)" by simp
  have h5: "\<forall>f \<in> set (validators ?self). f (PDict (map (\<lambda>(n, v). (KStr n, v)) ?attrs)) = None"
    by (simp add: validators_Type_init)
  from h1 h2 h3 h4 h5 show ?thesis
    using C7_Object_roundtrip
      [where attrs = ?attrs and fields = ?fields and constructor = ?ctor and self = ?self
         and allow_extra_fields = False]
    by (simp add: Object_init_def)
qed

text \<open>
  C7 as stated fails: with the default constructor \<open>dict\<close>, the schema
  \<open>Object({'x': Integer()})\<close> dumps the record with attribute \<open>x = 1\<close> to \<open>{'x': 1}\<close> and
  loads that back as the plain mapping \<open>{'x': 1}\<close>, which is not the record.
\<close>

theorem C7_roundtrip_counterexample:
  "dump (Object_init [(''x'', Inr (Integer_init VNone None))] dict_constructor
           (\<lambda>t. AttributeField t None) True VNone None)
     (PObject [(''x'', PInt 1)])
   = Inr (PDict [(KStr ''x'', PInt 1)])
   \<and> load (Object_init [(''x'', Inr (Integer_init VNone None))] dict_constructor
           (\<lambda>t. AttributeField t None) True VNone None)
       (PDict [(KStr ''x'', PInt 1)])
     = Inr (PDict [(KStr ''x'', PInt 1)])
   \<and> PDict [(KStr ''x'', PInt 1)] \<noteq> PObject [(''x'', PInt 1)]"
  by (simp add: Object_init_def Integer_init_def Type_init_def Type_fail_def
      Type_load_def Type_dump_def raise_errors_def dict_get_def dict_constructor_def
      Type_default_error_messages_def Object_default_error_messages_def dict_merge_def)

section \<open>\<open>DictWithDefault\<close>: the dictionary of the default argument is shared\<close>

lemma Dict_in_module_store:
  "Dict_in module_store (Type_init Type_default_error_messages va em) (Dict_value_types (Inl t))
     = Dict_init (Inl t) va em"
  by (simp add: Dict_in_def Dict_init_def Dict_value_types_def DictWithDefault_init_def
      DictWithDefault_view_def module_store_def)

text \<open>
  C6 (fails on the code): two instances that are constructed independently are
  claimed to own independent key-to-type mappings. Two \<open>DictWithDefault\<close> instances
  made without \<open>values\<close> refer to the one dictionary of the default argument: before
  any change \<open>DictWithDefault().get('x')\<close> is \<open>None\<close>; after \<open>a['x'] = String()\<close> on
  another instance \<open>a = DictWithDefault(default=Integer())\<close> it is the \<open>String\<close>
  descriptor. The same holds of two \<open>Dict\<close> schemas made from a \<open>Type\<close>: \<open>Dict(String())\<close>
  rejects \<open>{'x': 1}\<close>, and accepts it after \<open>value_types['x'] = Integer()\<close> on the other
  schema \<open>Dict(Boolean())\<close>.
\<close>

theorem C6_shared_default_values:
  "DictWithDefault_obj_get module_store (DictWithDefault_init None None) (KStr ''x'') = None
   \<and> DictWithDefault_obj_get
        (DictWithDefault_setitem module_store
           (DictWithDefault_init None (Some (Integer_init VNone None)))
           (KStr ''x'') (String_init VNone None))
        (DictWithDefault_init None None) (KStr ''x'')
      = Some (String_init VNone None)
   \<and> load (Dict_in module_store (Type_init Type_default_error_messages VNone None)
             (Dict_value_types (Inl (String_init VNone None))))
        (PDict [(KStr ''x'', PInt 1)])
      = Inl (ValidationError (MsgMap [(KStr ''x'', Msg ''Value should be string'')]))
   \<and> load (Dict_in
             (DictWithDefault_setitem module_store
                (Dict_value_types (Inl (Boolean_init VNone None)))
                (KStr ''x'') (Integer_init VNone None))
             (Type_init Type_default_error_messages VNone None)
             (Dict_value_types (Inl (String_init VNone None))))
        (PDict [(KStr ''x'', PInt 1)])
      = Inr (PDict [(KStr ''x'', PInt 1)])"
proof -
  let ?ti = "Integer_init VNone None"
  let ?ts = "String_init VNone None"
  have li: "load ?ti (PInt 1) = Inr (PInt 1)"
    and ls: "load ?ts (PInt 1) = Inl (ValidationError (Msg ''Value should be string''))"
    by (simp_all add: Integer_load_cases String_load_cases)
  have tl: "Type_load (Type_init Type_default_error_messages VNone None) v = Inr v" for v
    by (simp add: Type_load_accept validators_Type_init)
  show ?thesis
    unfolding Dict_in_def Dict_load_unfold
    by (simp add: DictWithDefault_obj_get_def DictWithDefault_view_def DictWithDefault_init_def
        DictWithDefault_setitem_def Dict_value_types_def module_store_def default_values_def
        DictWithDefault_get_def DictWithDefault_getitem_def li ls tl raise_errors_def
        add_error_def add_errors_def)
qed

end
